theory Spec2Isabelle
  imports Complex_Main "HOL-Library.AList" "HOL-Library.Sublist"
begin

section \<open>JavaScript values\<close>

text \<open>
  The payloads that server.js stores in its caches, receives from upstream catalogs and
  sends to callers are JSON data. Numbers are integers here (identifiers, sizes and
  millisecond time stamps); \<open>JUndefined\<close> is the value of a missing property.
  An object is the list of its properties in insertion order.
\<close>

datatype jsval =
    JUndefined
  | JNull
  | JBool bool
  | JNum int
  | JStr string
  | JArr "jsval list"
  | JObj "(string \<times> jsval) list"

text \<open>The truth value JavaScript gives a value in \<open>if (v)\<close>, \<open>v && w\<close> and \<open>v ? a : b\<close>.\<close>

fun truthy :: "jsval \<Rightarrow> bool" where
  "truthy JUndefined = False"
| "truthy JNull = False"
| "truthy (JBool b) = b"
| "truthy (JNum n) = (n \<noteq> 0)"
| "truthy (JStr s) = (s \<noteq> [])"
| "truthy (JArr xs) = True"
| "truthy (JObj ps) = True"

text \<open>
  Reading a property raises a TypeError on \<open>undefined\<close> and \<open>null\<close>; \<open>readable\<close>
  says that it does not. On every other value \<open>field v p\<close> is the value of \<open>v.p\<close> for
  the data properties the source reads (\<open>list\<close>, \<open>vod_id\<close>, ...): the property of an
  object, and \<open>undefined\<close> on a primitive or an array.
\<close>

fun readable :: "jsval \<Rightarrow> bool" where
  "readable JUndefined = False"
| "readable JNull = False"
| "readable v = True"

fun field :: "jsval \<Rightarrow> string \<Rightarrow> jsval" where
  "field (JObj ps) p = (case map_of ps p of None \<Rightarrow> JUndefined | Some v \<Rightarrow> v)"
| "field v p = JUndefined"

section \<open>The cache abstraction (class CacheManager)\<close>

text \<open>
  An entry is the object \<open>{ value, expire }\<close> that \<open>set\<close> builds. The manager holds
  its type (the string CACHE_TYPE) and the two in-memory tables. With it goes the disk it
  writes to: the content last written to the documents cache_search.json and
  cache_detail.json (\<open>None\<close> while a document has not been written), and
  \<open>disk_writable t d\<close>, which says whether \<open>fs.writeFileSync\<close> of the document of
  category \<open>d\<close> succeeds at the instant \<open>t\<close> (it raises otherwise: the disk is full,
  the file may not be written).
\<close>

record cache_item =
  item_value :: jsval
  item_expire :: int

record CacheManager =
  cm_type :: string
  searchCache :: "string \<rightharpoonup> cache_item"
  detailCache :: "string \<rightharpoonup> cache_item"
  search_json :: "(string \<rightharpoonup> cache_item) option"
  detail_json :: "(string \<rightharpoonup> cache_item) option"
  disk_writable :: "int \<Rightarrow> string \<Rightarrow> bool"

text \<open>The entry as the JavaScript object it is.\<close>

definition item_obj :: "cache_item \<Rightarrow> jsval" where
  "item_obj it = JObj [(''value'', item_value it), (''expire'', JNum (item_expire it))]"

text \<open>
  The constructor with \<open>init\<close>: the tables start empty, and the json type loads the
  documents that exist and parse. The constructor writes nothing; the manager it gives
  stands on a disk that can be written, and a record update gives any other disk.
\<close>

definition CacheManager_new ::
  "string \<Rightarrow> (string \<rightharpoonup> cache_item) option \<Rightarrow> (string \<rightharpoonup> cache_item) option \<Rightarrow> CacheManager" where
  "CacheManager_new ty sdoc ddoc =
     \<lparr> cm_type = ty,
       searchCache = (if ty = ''json'' then (case sdoc of Some m \<Rightarrow> m | None \<Rightarrow> Map.empty) else Map.empty),
       detailCache = (if ty = ''json'' then (case ddoc of Some m \<Rightarrow> m | None \<Rightarrow> Map.empty) else Map.empty),
       search_json = sdoc,
       detail_json = ddoc,
       disk_writable = (\<lambda>t d. True) \<rparr>"

text \<open>The table a category names: \<open>category === 'search' ? searchCache : detailCache\<close>.\<close>

definition table :: "CacheManager \<Rightarrow> string \<Rightarrow> (string \<rightharpoonup> cache_item)" where
  "table cm category = (if category = ''search'' then searchCache cm else detailCache cm)"

text \<open>
  \<open>get(category, key)\<close>, with \<open>now\<close> the value of \<open>Date.now()\<close> at the call. The
  memory branch returns the table's entry itself; the json branch compares the
  expiry and returns the entry's value; every other type returns \<open>null\<close>.
\<close>

definition CacheManager_get :: "CacheManager \<Rightarrow> string \<Rightarrow> string \<Rightarrow> int \<Rightarrow> jsval" where
  "CacheManager_get cm category key now =
     (if cm_type cm = ''memory'' then
        (case table cm category key of
           None \<Rightarrow> JUndefined
         | Some it \<Rightarrow> item_obj it)
      else if cm_type cm = ''json'' then
        (case table cm category key of
           None \<Rightarrow> JNull
         | Some it \<Rightarrow> if item_expire it > now then item_value it else JNull)
      else JNull)"

text \<open>
  \<open>saveDisk()\<close> at the instant \<open>now\<close>: on the json type it writes the search
  document and then the detail document. \<open>saveDisk_raises\<close> says that one of the two
  \<open>fs.writeFileSync\<close> raises; \<open>CacheManager_saveDisk\<close> is the manager that is left,
  with the documents written before the raise.
\<close>

definition saveDisk_raises :: "CacheManager \<Rightarrow> int \<Rightarrow> bool" where
  "saveDisk_raises cm now =
     (cm_type cm = ''json'' \<and> \<not> (disk_writable cm now ''search'' \<and> disk_writable cm now ''detail''))"

definition CacheManager_saveDisk :: "CacheManager \<Rightarrow> int \<Rightarrow> CacheManager" where
  "CacheManager_saveDisk cm now =
     (if cm_type cm = ''json'' then
        (if disk_writable cm now ''search'' then
           (if disk_writable cm now ''detail''
            then cm\<lparr> search_json := Some (searchCache cm), detail_json := Some (detailCache cm) \<rparr>
            else cm\<lparr> search_json := Some (searchCache cm) \<rparr>)
         else cm)
      else cm)"

text \<open>
  \<open>set(category, key, value, ttlSeconds)\<close> at the instant \<open>now\<close>. The entry goes into
  the table first, then the json type saves; \<open>set_raises\<close> says that this save raises,
  which leaves the entry in the table and the exception with the caller.
  \<open>CacheManager_set\<close> is the manager that is left in either case.
\<close>

definition set_raises :: "CacheManager \<Rightarrow> int \<Rightarrow> bool" where
  "set_raises cm now = saveDisk_raises cm now"

definition CacheManager_set ::
  "CacheManager \<Rightarrow> string \<Rightarrow> string \<Rightarrow> jsval \<Rightarrow> int \<Rightarrow> int \<Rightarrow> CacheManager" where
  "CacheManager_set cm category key v ttlSeconds now =
     (let expire = now + ttlSeconds * 1000;
          item = \<lparr> item_value = v, item_expire = expire \<rparr>
      in if cm_type cm = ''memory'' \<or> cm_type cm = ''json'' then
           (let cm' = (if category = ''search''
                       then cm\<lparr> searchCache := (searchCache cm)(key \<mapsto> item) \<rparr>
                       else cm\<lparr> detailCache := (detailCache cm)(key \<mapsto> item) \<rparr>)
            in if cm_type cm' = ''json'' then CacheManager_saveDisk cm' now else cm')
         else cm)"

section \<open>Sources and the upstream client\<close>

text \<open>A source of the site directory: \<open>{ key, name, api }\<close>.\<close>

record site =
  site_key :: string
  site_name :: string
  site_api :: string

text \<open>
  What one \<open>axios.get(site.api, ...)\<close> of a handler ends in. \<open>Response dl\<close> is a
  response whose body is an object; \<open>dl\<close> is its property \<open>list\<close>: \<open>None\<close> when the
  property is absent or falsy, \<open>Some xs\<close> when it is the array \<open>xs\<close> (the shape of the
  catalog interface). \<open>Failed\<close> is a rejected call (transport error, timeout, status
  outside 2xx) and equally a body of another shape, on which the handlers raise a
  TypeError inside the same \<open>try\<close> block before they write anything.
\<close>

datatype fetch_result = Failed | Response "jsval list option"

text \<open>The cache keys: \<open>`${site.key}_${keyword}`\<close> and \<open>`${siteKey}_detail_${id}`\<close>.\<close>

definition cacheKey :: "string \<Rightarrow> string \<Rightarrow> string" where
  "cacheKey k keyword = k @ ''_'' @ keyword"

definition detailKey :: "string \<Rightarrow> string \<Rightarrow> string" where
  "detailKey k ident = k @ ''_detail_'' @ ident"

text \<open>The decimal name of an array index, for the spread of an array or a string.\<close>

fun show_nat :: "nat \<Rightarrow> string" where
  "show_nat n =
     (if n < 10 then [char_of (48 + n)]
      else show_nat (n div 10) @ [char_of (48 + n mod 10)])"

declare show_nat.simps [simp del]

text \<open>The own enumerable properties that \<open>{ ...item }\<close> copies.\<close>

fun spread_props :: "jsval \<Rightarrow> (string \<times> jsval) list" where
  "spread_props (JObj ps) = ps"
| "spread_props (JArr xs) = map (\<lambda>(i, x). (show_nat i, x)) (enumerate 0 xs)"
| "spread_props (JStr s) = map (\<lambda>(i, c). (show_nat i, JStr [c])) (enumerate 0 s)"
| "spread_props v = []"

text \<open>\<open>{ ...item, site_key: site.key, site_name: site.name }\<close> of the cache-hit path.\<close>

definition decorate :: "site \<Rightarrow> jsval \<Rightarrow> jsval" where
  "decorate s item =
     JObj (AList.update ''site_name'' (JStr (site_name s))
            (AList.update ''site_key'' (JStr (site_key s)) (spread_props item)))"

text \<open>The object the streaming path builds from one upstream item.\<close>

definition stream_item :: "site \<Rightarrow> jsval \<Rightarrow> jsval" where
  "stream_item s item =
     JObj [(''vod_id'', field item ''vod_id''),
           (''vod_name'', field item ''vod_name''),
           (''vod_pic'', field item ''vod_pic''),
           (''vod_remarks'', field item ''vod_remarks''),
           (''vod_year'', field item ''vod_year''),
           (''type_name'', field item ''type_name''),
           (''vod_content'', field item ''vod_content''),
           (''vod_play_from'', field item ''vod_play_from''),
           (''vod_play_url'', field item ''vod_play_url''),
           (''site_key'', JStr (site_key s)),
           (''site_name'', JStr (site_name s))]"

text \<open>The object the POST path builds from one upstream item.\<close>

definition post_item :: "jsval \<Rightarrow> jsval" where
  "post_item item =
     JObj [(''vod_id'', field item ''vod_id''),
           (''vod_name'', field item ''vod_name''),
           (''vod_pic'', field item ''vod_pic''),
           (''vod_remarks'', field item ''vod_remarks''),
           (''vod_year'', field item ''vod_year''),
           (''type_name'', field item ''type_name'')]"

text \<open>
  \<open>data.list ? data.list.map(f) : []\<close>. The result is \<open>None\<close> when the callback
  raises a TypeError: it reads properties of an item that is \<open>null\<close> or
  \<open>undefined\<close>.
\<close>

definition map_list :: "(jsval \<Rightarrow> jsval) \<Rightarrow> jsval list option \<Rightarrow> jsval list option" where
  "map_list f dl =
     (case dl of
        None \<Rightarrow> Some []
      | Some xs \<Rightarrow> if list_all readable xs then Some (map f xs) else None)"

section \<open>The streaming search (GET /api/search)\<close>

text \<open>
  What a run does, in the order it does it. \<open>Lookup i k\<close>: the branch of source \<open>i\<close>
  reads the search cache under \<open>k\<close>. \<open>Upstream i\<close>: it calls \<open>axios.get\<close> on the
  source's endpoint. \<open>DataEvent i l\<close>: it writes the data frame of the list \<open>l\<close> to
  the response. \<open>Settled i\<close>: its promise resolves. \<open>DoneEvent\<close>: the handler writes
  the frame \<open>event: done\<close> and ends the response.
\<close>

datatype sse =
    Lookup nat string
  | Upstream nat
  | DataEvent nat "jsval list"
  | Settled nat
  | DoneEvent

text \<open>
  The first, synchronous part of a branch, up to its \<open>await\<close>: the cache lookup.
  \<open>Hit items\<close> is the cache-hit path with the decorated items; \<open>Miss\<close> goes on to the
  upstream call; \<open>Reject\<close> is the TypeError of \<open>cached.list.map\<close> on a truthy
  \<open>cached.list\<close> that is not an array, raised outside the \<open>try\<close> block, which
  rejects the branch's promise.
\<close>

datatype start = Hit "jsval list" | Miss | Reject

definition lookup_branch :: "CacheManager \<Rightarrow> string \<Rightarrow> int \<Rightarrow> site \<Rightarrow> start" where
  "lookup_branch cm keyword now s =
     (let cached = CacheManager_get cm ''search'' (cacheKey (site_key s) keyword) now
      in if truthy cached \<and> truthy (field cached ''list'') then
           (case field cached ''list'' of
              JArr xs \<Rightarrow> Hit (map (decorate s) xs)
            | _ \<Rightarrow> Reject)
         else Miss)"

definition start_branch :: "CacheManager \<Rightarrow> string \<Rightarrow> int \<Rightarrow> nat \<times> site \<Rightarrow> sse list" where
  "start_branch cm keyword now = (\<lambda>(i, s).
     Lookup i (cacheKey (site_key s) keyword) #
     (case lookup_branch cm keyword now s of
        Hit items \<Rightarrow> (if items \<noteq> [] then [DataEvent i items] else []) @ [Settled i]
      | Miss \<Rightarrow> [Upstream i]
      | Reject \<Rightarrow> []))"

text \<open>
  The rest of a branch that missed, run when its upstream call ends: \<open>up i\<close> is the
  instant at which the call of source \<open>i\<close> ends, and how. The cache write happens at
  that instant, inside the \<open>try\<close> block and before \<open>res.write\<close>: when it raises,
  the \<open>catch\<close> block ends the branch with no frame, the entry being in the table.
\<close>

definition complete_branch ::
  "string \<Rightarrow> (nat \<Rightarrow> int \<times> fetch_result) \<Rightarrow> nat \<times> site \<Rightarrow> CacheManager \<Rightarrow> sse list \<times> CacheManager" where
  "complete_branch keyword up = (\<lambda>(i, s) cm.
     (case snd (up i) of
        Failed \<Rightarrow> ([Settled i], cm)
      | Response dl \<Rightarrow>
          (case map_list (stream_item s) dl of
             None \<Rightarrow> ([Settled i], cm)
           | Some list \<Rightarrow>
               ((if set_raises cm (fst (up i)) then []
                 else if list \<noteq> [] then [DataEvent i list] else []) @ [Settled i],
                CacheManager_set cm ''search'' (cacheKey (site_key s) keyword)
                  (JObj [(''list'', JArr list)]) 600 (fst (up i))))))"

fun settle ::
  "string \<Rightarrow> (nat \<Rightarrow> int \<times> fetch_result) \<Rightarrow> (nat \<times> site) list \<Rightarrow> CacheManager \<Rightarrow> sse list \<times> CacheManager" where
  "settle keyword up [] cm = ([], cm)"
| "settle keyword up (b # bs) cm =
     (let (tr, cm1) = complete_branch keyword up b cm;
          (tr', cm2) = settle keyword up bs cm1
      in (tr @ tr', cm2))"

text \<open>
  The reply of the GET handler: a JSON body with its status, the event stream, or no
  reply at all when the handler's promise rejects (nothing catches it; what the process
  does from there on is the runtime's, and the model stops).
\<close>

datatype search_reply =
    JsonReply nat jsval
  | EventStream "sse list"
  | UnhandledRejection

text \<open>
  \<open>sites.map(async (site) => ...)\<close> runs the first part of every branch in the order of
  the sites (\<open>start_all\<close>); the branches that wait for upstream resume in the order in
  which their calls end (\<open>resume_order\<close>); \<open>await Promise.all\<close> resumes after the last
  of them, and the handler writes the terminal frame.
\<close>

definition start_all :: "CacheManager \<Rightarrow> site list \<Rightarrow> string \<Rightarrow> int \<Rightarrow> sse list" where
  "start_all cm sites keyword now = concat (map (start_branch cm keyword now) (enumerate 0 sites))"

definition resume_order ::
  "CacheManager \<Rightarrow> site list \<Rightarrow> string \<Rightarrow> int \<Rightarrow> (nat \<Rightarrow> int \<times> fetch_result) \<Rightarrow> (nat \<times> site) list" where
  "resume_order cm sites keyword now up =
     sort_key (\<lambda>(i, s). fst (up i))
       (filter (\<lambda>(i, s). lookup_branch cm keyword now s = Miss) (enumerate 0 sites))"

definition stream_search ::
  "CacheManager \<Rightarrow> site list \<Rightarrow> string \<Rightarrow> int \<Rightarrow> (nat \<Rightarrow> int \<times> fetch_result) \<Rightarrow> search_reply \<times> CacheManager" where
  "stream_search cm sites keyword now up =
     (if list_ex (\<lambda>s. lookup_branch cm keyword now s = Reject) sites
      then (UnhandledRejection, cm)
      else (let (tr2, cm') = settle keyword up (resume_order cm sites keyword now up) cm
            in (EventStream (start_all cm sites keyword now @ tr2 @ [DoneEvent]), cm')))"

text \<open>
  The handler: \<open>wd\<close> and \<open>stream_param\<close> are the query parameters \<open>wd\<close> and
  \<open>stream\<close> (\<open>None\<close> when absent), \<open>sites\<close> is \<open>getDB().sites\<close>.
\<close>

definition error_body :: "string \<Rightarrow> jsval" where
  "error_body msg = JObj [(''error'', JStr msg)]"

definition get_search ::
  "CacheManager \<Rightarrow> site list \<Rightarrow> string option \<Rightarrow> string option \<Rightarrow> int \<Rightarrow>
   (nat \<Rightarrow> int \<times> fetch_result) \<Rightarrow> search_reply \<times> CacheManager" where
  "get_search cm sites wd stream_param now up =
     (case wd of
        None \<Rightarrow> (JsonReply 400 (error_body ''Missing keyword''), cm)
      | Some keyword \<Rightarrow>
          if keyword = [] then (JsonReply 400 (error_body ''Missing keyword''), cm)
          else if stream_param \<noteq> Some ''true''
          then (JsonReply 200 (error_body ''Use stream=true for GET requests''), cm)
          else stream_search cm sites keyword now up)"

section \<open>The single-source handlers\<close>

text \<open>
  What a request/response handler did: the status and JSON body it sent, the cache it
  left, and whether it called \<open>axios.get\<close>. The argument \<open>up\<close> is the instant at
  which that call ends, and how. The cache write of a handler is inside its \<open>try\<close>
  block and before its reply: when it raises, the \<open>catch\<close> block replies 500, the
  entry being in the table.
\<close>

record handled =
  h_status :: nat
  h_body :: jsval
  h_cache :: CacheManager
  h_fetched :: bool

text \<open>POST /api/search, with \<open>keyword\<close> and \<open>siteKey\<close> of the request body.\<close>

definition post_search ::
  "CacheManager \<Rightarrow> site list \<Rightarrow> string \<Rightarrow> string \<Rightarrow> int \<Rightarrow> int \<times> fetch_result \<Rightarrow> handled" where
  "post_search cm sites keyword siteKey now up =
     (case find (\<lambda>s. site_key s = siteKey) sites of
        None \<Rightarrow>
          \<lparr> h_status = 404, h_body = error_body ''Site not found'', h_cache = cm, h_fetched = False \<rparr>
      | Some s \<Rightarrow>
          (let cached = CacheManager_get cm ''search'' (cacheKey siteKey keyword) now
           in if truthy cached then
                \<lparr> h_status = 200, h_body = cached, h_cache = cm, h_fetched = False \<rparr>
              else
                (case snd up of
                   Failed \<Rightarrow>
                     \<lparr> h_status = 500, h_body = error_body ''Search failed'', h_cache = cm, h_fetched = True \<rparr>
                 | Response dl \<Rightarrow>
                     (case map_list post_item dl of
                        None \<Rightarrow>
                          \<lparr> h_status = 500, h_body = error_body ''Search failed'', h_cache = cm,
                            h_fetched = True \<rparr>
                      | Some list \<Rightarrow>
                          (let result = JObj [(''list'', JArr list)]
                           in \<lparr> h_status = (if set_raises cm (fst up) then 500 else 200),
                                h_body = (if set_raises cm (fst up) then error_body ''Search failed'' else result),
                                h_cache = CacheManager_set cm ''search'' (cacheKey siteKey keyword) result 600 (fst up),
                                h_fetched = True \<rparr>)))))"

text \<open>GET /api/detail, with the query parameters \<open>id\<close> and \<open>site_key\<close>.\<close>

definition get_detail ::
  "CacheManager \<Rightarrow> site list \<Rightarrow> string \<Rightarrow> string \<Rightarrow> int \<Rightarrow> int \<times> fetch_result \<Rightarrow> handled" where
  "get_detail cm sites ident siteKey now up =
     (case find (\<lambda>s. site_key s = siteKey) sites of
        None \<Rightarrow>
          \<lparr> h_status = 404, h_body = error_body ''Site not found'', h_cache = cm, h_fetched = False \<rparr>
      | Some s \<Rightarrow>
          (let cached = CacheManager_get cm ''detail'' (detailKey siteKey ident) now
           in if truthy cached then
                \<lparr> h_status = 200, h_body = JObj [(''list'', JArr [cached])], h_cache = cm,
                  h_fetched = False \<rparr>
              else
                (case snd up of
                   Failed \<Rightarrow>
                     \<lparr> h_status = 500,
                       h_body = JObj [(''error'', JStr ''Detail fetch failed''), (''list'', JArr [])],
                       h_cache = cm, h_fetched = True \<rparr>
                 | Response dl \<Rightarrow>
                     (case dl of
                        Some (detail # rest) \<Rightarrow>
                          \<lparr> h_status = (if set_raises cm (fst up) then 500 else 200),
                            h_body = (if set_raises cm (fst up)
                                      then JObj [(''error'', JStr ''Detail fetch failed''), (''list'', JArr [])]
                                      else JObj [(''list'', JArr [detail])]),
                            h_cache = CacheManager_set cm ''detail'' (detailKey siteKey ident) detail 3600 (fst up),
                            h_fetched = True \<rparr>
                      | _ \<Rightarrow>
                          \<lparr> h_status = 404,
                            h_body = JObj [(''error'', JStr ''Not found''), (''list'', JArr [])],
                            h_cache = cm, h_fetched = True \<rparr>))))"

text \<open>POST /api/detail, with \<open>id\<close> and \<open>siteKey\<close> of the request body.\<close>

definition post_detail ::
  "CacheManager \<Rightarrow> site list \<Rightarrow> string \<Rightarrow> string \<Rightarrow> int \<Rightarrow> int \<times> fetch_result \<Rightarrow> handled" where
  "post_detail cm sites ident siteKey now up =
     (case find (\<lambda>s. site_key s = siteKey) sites of
        None \<Rightarrow>
          \<lparr> h_status = 404, h_body = error_body ''Site not found'', h_cache = cm, h_fetched = False \<rparr>
      | Some s \<Rightarrow>
          (let cached = CacheManager_get cm ''detail'' (detailKey siteKey ident) now
           in if truthy cached then
                \<lparr> h_status = 200, h_body = cached, h_cache = cm, h_fetched = False \<rparr>
              else
                (case snd up of
                   Failed \<Rightarrow>
                     \<lparr> h_status = 500, h_body = error_body ''Detail fetch failed'', h_cache = cm,
                       h_fetched = True \<rparr>
                 | Response dl \<Rightarrow>
                     (case dl of
                        Some (detail # rest) \<Rightarrow>
                          \<lparr> h_status = (if set_raises cm (fst up) then 500 else 200),
                            h_body = (if set_raises cm (fst up) then error_body ''Detail fetch failed'' else detail),
                            h_cache = CacheManager_set cm ''detail'' (detailKey siteKey ident) detail 3600 (fst up),
                            h_fetched = True \<rparr>
                      | _ \<Rightarrow>
                          \<lparr> h_status = 404, h_body = error_body ''Not found'', h_cache = cm,
                            h_fetched = True \<rparr>))))"

section \<open>Paths and the file system\<close>

text \<open>
  An absolute, normalised path is the list of its segments. \<open>path_join base parts\<close>
  is \<open>path.join(base, parts...)\<close> for such a base: the parts are cut at the
  separator, an empty segment and \<open>.\<close> are dropped, and \<open>..\<close> removes the segment
  before it.
\<close>

primrec split_slash :: "string \<Rightarrow> string list" where
  "split_slash [] = [[]]"
| "split_slash (c # cs) =
     (if c = CHR ''/'' then [] # split_slash cs
      else (case split_slash cs of
              [] \<Rightarrow> [[c]]
            | w # ws \<Rightarrow> (c # w) # ws))"

definition norm_step :: "string \<Rightarrow> string list \<Rightarrow> string list" where
  "norm_step seg st =
     (if seg = [] \<or> seg = ''.'' then st
      else if seg = ''..'' then butlast st
      else st @ [seg])"

definition path_join :: "string list \<Rightarrow> string list \<Rightarrow> string list" where
  "path_join base parts = fold norm_step (concat (map split_slash parts)) base"

definition path_dirname :: "string list \<Rightarrow> string list" where
  "path_dirname p = butlast p"

text \<open>
  What \<open>statSync\<close> reports of a path: whether it is a directory, its size and its
  modification time. The file system maps the paths that exist to their entries.
\<close>

record entry =
  e_dir :: bool
  e_size :: nat
  e_mtime :: int

type_synonym filesystem = "string list \<rightharpoonup> entry"

text \<open>
  \<open>unlinkSync\<close> raises (\<open>None\<close>) on a path that does not exist, on a directory, and
  on a path the process may not unlink (\<open>can p\<close> is false).
\<close>

definition unlinkSync :: "(string list \<Rightarrow> bool) \<Rightarrow> filesystem \<Rightarrow> string list \<Rightarrow> filesystem option" where
  "unlinkSync can fs p =
     (case fs p of
        None \<Rightarrow> None
      | Some e \<Rightarrow> if e_dir e \<or> \<not> can p then None else Some (fs(p := None)))"

text \<open>
  \<open>mkdirSync(d, { recursive: true })\<close>: every missing directory on the way is
  created; it raises when a segment on the way is a file. The size that \<open>statSync\<close>
  reports of a new directory is the file system's; 4096 stands for it.
\<close>

definition mkdirSync :: "filesystem \<Rightarrow> string list \<Rightarrow> int \<Rightarrow> filesystem option" where
  "mkdirSync fs d now =
     (let ps = tl (prefixes d)
      in if list_ex (\<lambda>p. case fs p of None \<Rightarrow> False | Some e \<Rightarrow> \<not> e_dir e) ps then None
         else Some (fold (\<lambda>p m. if m p = None
                                  then m(p \<mapsto> \<lparr> e_dir = True, e_size = 4096, e_mtime = now \<rparr>)
                                  else m) ps fs))"

text \<open>
  Opening the destination for writing and streaming \<open>n\<close> bytes into it; \<open>None\<close> when
  the destination is a directory (the open fails).
\<close>

definition writeFile :: "filesystem \<Rightarrow> string list \<Rightarrow> nat \<Rightarrow> int \<Rightarrow> filesystem option" where
  "writeFile fs p n now =
     (if (case fs p of None \<Rightarrow> False | Some e \<Rightarrow> e_dir e) then None
      else Some (fs(p \<mapsto> \<lparr> e_dir = False, e_size = n, e_mtime = now \<rparr>)))"

section \<open>The image proxy (GET /api/tmdb-image/:size/:filename)\<close>

definition allowSizes :: "string list" where
  "allowSizes = [''w300'', ''w342'', ''w500'', ''w780'', ''w1280'', ''original'']"

text \<open>The pattern \<open>/^[a-zA-Z0-9_\-\.]+$/\<close>.\<close>

definition allowed_char :: "char \<Rightarrow> bool" where
  "allowed_char c =
     (let n = (of_char c :: nat)
      in (97 \<le> n \<and> n \<le> 122) \<or> (65 \<le> n \<and> n \<le> 90) \<or> (48 \<le> n \<and> n \<le> 57)
         \<or> c = CHR ''_'' \<or> c = CHR ''-'' \<or> c = CHR ''.'')"

definition filename_ok :: "string \<Rightarrow> bool" where
  "filename_ok filename = (filename \<noteq> [] \<and> list_all allowed_char filename)"

text \<open>The counter of \<open>cleanCacheIfNeeded\<close>: the new count, and whether a sweep is scheduled.\<close>

definition CLEAN_TRIGGER_THRESHOLD :: nat where
  "CLEAN_TRIGGER_THRESHOLD = 50"

definition cleanCacheIfNeeded :: "nat \<Rightarrow> nat \<times> bool" where
  "cleanCacheIfNeeded newItemCount =
     (if newItemCount + 1 < CLEAN_TRIGGER_THRESHOLD then (newItemCount + 1, False) else (0, True))"

text \<open>
  How the download of a miss ends: the upstream call fails; the pipeline fails after
  \<open>n\<close> bytes have reached the destination (\<open>WriteFailed (Some n)\<close>) or before the
  destination exists (\<open>WriteFailed None\<close>); or all \<open>n\<close> bytes are written.
\<close>

datatype download = FetchFailed | WriteFailed "nat option" | Completed nat

datatype fs_op =
    ExistsSync "string list"
  | StatSync "string list"
  | UtimesSync "string list"
  | MkdirSync "string list"
  | CreateWriteStream "string list"
  | UnlinkSync "string list"

text \<open>
  The reply: a status with a text, the file at a path (\<open>res.sendFile\<close>), or none when
  the handler's promise rejects.
\<close>

datatype image_reply = Text nat string | SendFile "string list" | NoReply

record image_result =
  i_reply :: image_reply
  i_fs :: filesystem
  i_ops :: "fs_op list"
  i_count :: nat
  i_sweep :: bool

text \<open>The \<open>catch\<close> block of the handler.\<close>

definition image_catch ::
  "(string list \<Rightarrow> bool) \<Rightarrow> filesystem \<Rightarrow> fs_op list \<Rightarrow> nat \<Rightarrow> string list \<Rightarrow> image_result" where
  "image_catch can fs ops newItemCount localPath =
     (case fs localPath of
        None \<Rightarrow>
          \<lparr> i_reply = Text 404 ''Image not found'', i_fs = fs,
            i_ops = ops @ [ExistsSync localPath], i_count = newItemCount, i_sweep = False \<rparr>
      | Some e \<Rightarrow>
          (case unlinkSync can fs localPath of
             None \<Rightarrow>
               \<lparr> i_reply = NoReply, i_fs = fs,
                 i_ops = ops @ [ExistsSync localPath, UnlinkSync localPath],
                 i_count = newItemCount, i_sweep = False \<rparr>
           | Some fs' \<Rightarrow>
               \<lparr> i_reply = Text 404 ''Image not found'', i_fs = fs',
                 i_ops = ops @ [ExistsSync localPath, UnlinkSync localPath],
                 i_count = newItemCount, i_sweep = False \<rparr>))"

text \<open>The \<open>try\<close> block: the download into \<open>localPath\<close>, then the reply.\<close>

definition image_download ::
  "(string list \<Rightarrow> bool) \<Rightarrow> filesystem \<Rightarrow> fs_op list \<Rightarrow> nat \<Rightarrow> string list \<Rightarrow> int \<Rightarrow> download \<Rightarrow> image_result" where
  "image_download can fs ops newItemCount localPath now dl =
     (case dl of
        FetchFailed \<Rightarrow> image_catch can fs ops newItemCount localPath
      | WriteFailed None \<Rightarrow>
          image_catch can fs (ops @ [CreateWriteStream localPath]) newItemCount localPath
      | WriteFailed (Some n) \<Rightarrow>
          (case writeFile fs localPath n now of
             None \<Rightarrow> image_catch can fs (ops @ [CreateWriteStream localPath]) newItemCount localPath
           | Some fs' \<Rightarrow> image_catch can fs' (ops @ [CreateWriteStream localPath]) newItemCount localPath)
      | Completed n \<Rightarrow>
          (case writeFile fs localPath n now of
             None \<Rightarrow> image_catch can fs (ops @ [CreateWriteStream localPath]) newItemCount localPath
           | Some fs' \<Rightarrow>
               \<lparr> i_reply = SendFile localPath, i_fs = fs',
                 i_ops = ops @ [CreateWriteStream localPath],
                 i_count = fst (cleanCacheIfNeeded newItemCount),
                 i_sweep = snd (cleanCacheIfNeeded newItemCount) \<rparr>))"

text \<open>
  The handler, with \<open>cache_dir\<close> the directory IMAGE_CACHE_DIR, \<open>sz\<close> and \<open>filename\<close> the
  route parameters, \<open>newItemCount\<close> the counter and \<open>now\<close> the time of the request.
\<close>

definition tmdb_image ::
  "string list \<Rightarrow> (string list \<Rightarrow> bool) \<Rightarrow> filesystem \<Rightarrow> nat \<Rightarrow> string \<Rightarrow> string \<Rightarrow> int \<Rightarrow> download \<Rightarrow> image_result" where
  "tmdb_image cache_dir can fs newItemCount sz filename now dl =
     (if \<not> List.member allowSizes sz \<or> \<not> filename_ok filename then
        \<lparr> i_reply = Text 400 ''Invalid parameters'', i_fs = fs, i_ops = [],
          i_count = newItemCount, i_sweep = False \<rparr>
      else
        (let localPath = path_join cache_dir [sz, filename];
             localDir = path_dirname localPath;
             ops1 = (case fs localPath of
                       None \<Rightarrow> [ExistsSync localPath]
                     | Some e \<Rightarrow> [ExistsSync localPath, StatSync localPath])
         in case (case fs localPath of None \<Rightarrow> None | Some e \<Rightarrow> if e_size e > 0 then Some e else None) of
              Some e \<Rightarrow>
                \<lparr> i_reply = SendFile localPath, i_fs = fs(localPath \<mapsto> e\<lparr> e_mtime := now \<rparr>),
                  i_ops = ops1 @ [UtimesSync localPath], i_count = newItemCount, i_sweep = False \<rparr>
            | None \<Rightarrow>
                (case fs localDir of
                   Some d \<Rightarrow>
                     image_download can fs (ops1 @ [ExistsSync localDir]) newItemCount localPath now dl
                 | None \<Rightarrow>
                     (case mkdirSync fs localDir now of
                        None \<Rightarrow>
                          \<lparr> i_reply = NoReply, i_fs = fs,
                            i_ops = ops1 @ [ExistsSync localDir, MkdirSync localDir],
                            i_count = newItemCount, i_sweep = False \<rparr>
                      | Some fs' \<Rightarrow>
                          image_download can fs' (ops1 @ [ExistsSync localDir, MkdirSync localDir])
                            newItemCount localPath now dl))))"

section \<open>The eviction sweep (cleanCacheIfNeeded's timer callback)\<close>

text \<open>
  The directory tree as the walk reads it: a file with its size and modification time; a
  directory with its entries in the order of \<open>readdirSync\<close>; \<open>Locked\<close>, a directory
  on which \<open>readdirSync\<close> raises (it may not be read); and \<open>Dangling\<close>, a name with
  nothing behind it (a link whose target is gone, a file that vanished after it was
  listed), on which \<open>existsSync\<close> is false and \<open>statSync\<close> raises.
\<close>

datatype node = File nat int | Dir "(string \<times> node) list" | Locked | Dangling

record file_rec =
  f_path :: "string list"
  f_size :: nat
  f_time :: int

text \<open>
  \<open>traverseDir(dir)\<close>, with the node at \<open>dir\<close>: the tuples it pushes, in order, or
  \<open>None\<close> when \<open>readdirSync\<close> or \<open>statSync\<close> raises, which nothing in the walk
  catches. \<open>each_item\<close> is the \<open>forEach\<close> over the entries of \<open>dir\<close>.
\<close>

fun traverseDir :: "string list \<Rightarrow> node \<Rightarrow> file_rec list option"
  and each_item :: "string list \<Rightarrow> (string \<times> node) list \<Rightarrow> file_rec list option" where
  "traverseDir dir Dangling = Some []"
| "traverseDir dir (Dir items) = each_item dir items"
| "traverseDir dir Locked = None"
| "traverseDir dir (File sz t) = None"
| "each_item dir [] = Some []"
| "each_item dir ((item, Dangling) # rest) = None"
| "each_item dir ((item, File sz t) # rest) =
     (case each_item dir rest of
        None \<Rightarrow> None
      | Some fs \<Rightarrow> Some (\<lparr> f_path = dir @ [item], f_size = sz, f_time = t \<rparr> # fs))"
| "each_item dir ((item, n) # rest) =
     (case traverseDir (dir @ [item]) n of
        None \<Rightarrow> None
      | Some sub \<Rightarrow>
          (case each_item dir rest of
             None \<Rightarrow> None
           | Some fs \<Rightarrow> Some (sub @ fs)))"





section \<open>Observations on a run\<close>

text \<open>
  The data frames of a run, each with the source that wrote it; and the shape of the
  values that the search handlers write into the search cache: an object whose
  \<open>list\<close> is an array (more generally, an array or a falsy value).
\<close>

fun data_of :: "sse \<Rightarrow> (nat \<times> jsval list) list" where
  "data_of (DataEvent i l) = [(i, l)]"
| "data_of e = []"

definition data_events :: "sse list \<Rightarrow> (nat \<times> jsval list) list" where
  "data_events tr = concat (map data_of tr)"

definition list_shaped :: "jsval \<Rightarrow> bool" where
  "list_shaped v = (case field v ''list'' of JArr xs \<Rightarrow> True | l \<Rightarrow> \<not> truthy l)"

definition search_cache_ok :: "CacheManager \<Rightarrow> bool" where
  "search_cache_ok cm = (\<forall>k it. searchCache cm k = Some it \<longrightarrow> list_shaped (item_value it))"

section \<open>Properties of the cache\<close>

lemma cm_type_set [simp]: "cm_type (CacheManager_set cm category key v ttl now) = cm_type cm"
  by (simp add: CacheManager_set_def CacheManager_saveDisk_def Let_def)

lemma disk_writable_set [simp]:
  "disk_writable (CacheManager_set cm category key v ttl now) = disk_writable cm"
  by (simp add: CacheManager_set_def CacheManager_saveDisk_def Let_def)

lemma set_raises_set [simp]:
  "set_raises (CacheManager_set cm category key v ttl now) t = set_raises cm t"
  by (simp add: set_raises_def saveDisk_raises_def)

lemma set_raises_json: "set_raises cm t \<Longrightarrow> cm_type cm = ''json''"
  by (simp add: set_raises_def saveDisk_raises_def)

lemma memory_set_never_raises [simp]: "cm_type cm = ''memory'' \<Longrightarrow> \<not> set_raises cm t"
  by (simp add: set_raises_def saveDisk_raises_def)

lemma new_manager_never_raises [simp]: "\<not> set_raises (CacheManager_new ty sdoc ddoc) t"
  by (simp add: set_raises_def saveDisk_raises_def CacheManager_new_def)

lemma table_set_same:
  "cm_type cm = ''memory'' \<or> cm_type cm = ''json'' \<Longrightarrow>
   table (CacheManager_set cm category key v ttl now) category key
     = Some \<lparr> item_value = v, item_expire = now + ttl * 1000 \<rparr>"
  by (auto simp: CacheManager_set_def CacheManager_saveDisk_def table_def Let_def)

lemma table_set_other:
  "key' \<noteq> key \<Longrightarrow>
   table (CacheManager_set cm category key v ttl now) category' key' = table cm category' key'"
  by (auto simp: CacheManager_set_def CacheManager_saveDisk_def table_def Let_def)

text \<open>The json type keeps the contract of section 4.1: the value before the expiry, a miss from it on.\<close>

lemma json_get_live:
  "cm_type cm = ''json'' \<Longrightarrow> table cm category key = Some it \<Longrightarrow> now < item_expire it \<Longrightarrow>
   CacheManager_get cm category key now = item_value it"
  by (simp add: CacheManager_get_def)

lemma json_get_expired:
  "cm_type cm = ''json'' \<Longrightarrow> table cm category key = Some it \<Longrightarrow> item_expire it \<le> now \<Longrightarrow>
   CacheManager_get cm category key now = JNull"
  by (simp add: CacheManager_get_def)

lemma json_get_absent:
  "cm_type cm = ''json'' \<Longrightarrow> table cm category key = None \<Longrightarrow>
   CacheManager_get cm category key now = JNull"
  by (simp add: CacheManager_get_def)

lemma json_set_get:
  "cm_type cm = ''json'' \<Longrightarrow>
   CacheManager_get (CacheManager_set cm category key v ttl t0) category key t1
     = (if t1 < t0 + ttl * 1000 then v else JNull)"
  by (simp add: CacheManager_get_def table_set_same)

text \<open>
  Claim C1. For every backend, a \<open>get\<close> strictly before the entry's expiry returns the
  stored value unchanged and a \<open>get\<close> at or after it is a miss. The memory type does
  neither: whatever the instant \<open>t1\<close> of the read, \<open>get\<close> returns the entry
  \<open>{ value, expire }\<close> itself, which is not a miss and, whatever the stored value, is not
  the stored value.
\<close>

theorem C1_memory_get_returns_entry:
  "CacheManager_get (CacheManager_set (cm\<lparr> cm_type := ''memory'' \<rparr>) category key v ttl t0) category key t1
     = JObj [(''value'', v), (''expire'', JNum (t0 + ttl * 1000))]"
  by (simp add: CacheManager_get_def table_set_same item_obj_def)


section \<open>Properties of the GET search handler's guards\<close>

lemma get_search_missing_keyword:
  "wd = None \<or> wd = Some [] \<Longrightarrow>
   get_search cm sites wd stream_param now up = (JsonReply 400 (error_body ''Missing keyword''), cm)"
  by (auto simp: get_search_def)

text \<open>
  Claim C9. A GET search that does not ask for the stream is to be rejected as a client
  error with a 4xx status, with no cache lookup and no upstream call. The handler does
  reject it without touching the cache or any source (the reply does not depend on
  them and the cache is returned as it was), but the reply it sends has the status 200:
  \<open>res.json\<close> without \<open>res.status\<close>, where the branch above it sends 400.
\<close>

theorem C9_non_stream_reply_has_status_200:
  "keyword \<noteq> [] \<Longrightarrow> stream_param \<noteq> Some ''true'' \<Longrightarrow>
   get_search cm sites (Some keyword) stream_param now up
     = (JsonReply 200 (error_body ''Use stream=true for GET requests''), cm)"
  by (simp add: get_search_def)

theorem C9_witness:
  "get_search (CacheManager_new ''json'' None None) [] (Some ''batman'') None 0 (\<lambda>i. (0, Failed))
     = (JsonReply 200 (JObj [(''error'', JStr ''Use stream=true for GET requests'')]),
        CacheManager_new ''json'' None None)"
  using C9_non_stream_reply_has_status_200
    [of "''batman''" None "CacheManager_new ''json'' None None" "[]" 0 "\<lambda>i. (0, Failed)"]
  by (simp add: error_body_def)


section \<open>Properties of the image proxy\<close>

lemma split_slash_plain: "CHR ''/'' \<notin> set s \<Longrightarrow> split_slash s = [s]"
  by (induction s) auto

lemma allowed_char_not_slash: "allowed_char c \<Longrightarrow> c \<noteq> CHR ''/''"
  by (auto simp: allowed_char_def)

lemma filename_ok_no_slash: "filename_ok f \<Longrightarrow> CHR ''/'' \<notin> set f"
  by (auto simp: filename_ok_def list_all_iff dest: allowed_char_not_slash)

lemma slash_rejected: "CHR ''/'' \<in> set f \<Longrightarrow> \<not> filename_ok f"
  using filename_ok_no_slash by blast

lemma allowSizes_plain:
  "List.member allowSizes sz \<Longrightarrow> CHR ''/'' \<notin> set sz \<and> sz \<noteq> [] \<and> sz \<noteq> ''.'' \<and> sz \<noteq> ''..''"
  by (auto simp: allowSizes_def)

lemma localPath_cases:
  assumes "List.member allowSizes sz" and "filename_ok filename"
  shows "path_join cache_dir [sz, filename] =
     (if filename = ''.'' then cache_dir @ [sz]
      else if filename = ''..'' then cache_dir
      else cache_dir @ [sz, filename])"
proof -
  have s: "split_slash sz = [sz]" and f: "split_slash filename = [filename]"
    using assms allowSizes_plain filename_ok_no_slash split_slash_plain by blast+
  have ne: "filename \<noteq> []" using assms(2) by (simp add: filename_ok_def)
  from allowSizes_plain [OF assms(1)] have "sz \<noteq> []" "sz \<noteq> ''.''" "sz \<noteq> ''..''" by auto
  then show ?thesis
    using ne by (simp add: path_join_def s f norm_step_def)
qed


text \<open>
  Claim C5. A size outside the allowed set or a file name that fails the pattern is
  rejected with status 400 before any file system access: the handler performs no file
  system operation and leaves the file system as it was. For an accepted pair the
  derived path stays inside the image cache directory: it is the directory followed
  by the size and the file name, or, for the file names \<open>.\<close> and \<open>..\<close>, the size's
  directory or the cache directory itself.
\<close>

theorem C5_image_parameters_checked:
  "(\<not> (List.member allowSizes sz \<and> filename_ok filename) \<longrightarrow>
      tmdb_image cache_dir can fs n sz filename now dl
        = \<lparr> i_reply = Text 400 ''Invalid parameters'', i_fs = fs, i_ops = [], i_count = n, i_sweep = False \<rparr>)
   \<and> (List.member allowSizes sz \<and> filename_ok filename \<longrightarrow>
      prefix cache_dir (path_join cache_dir [sz, filename])
      \<and> path_join cache_dir [sz, filename] =
          (if filename = ''.'' then cache_dir @ [sz]
           else if filename = ''..'' then cache_dir
           else cache_dir @ [sz, filename]))"
proof (intro conjI impI)
  assume "\<not> (List.member allowSizes sz \<and> filename_ok filename)"
  then show "tmdb_image cache_dir can fs n sz filename now dl
        = \<lparr> i_reply = Text 400 ''Invalid parameters'', i_fs = fs, i_ops = [], i_count = n, i_sweep = False \<rparr>"
    by (auto simp: tmdb_image_def)
next
  assume a: "List.member allowSizes sz \<and> filename_ok filename"
  then show eq: "path_join cache_dir [sz, filename] =
          (if filename = ''.'' then cache_dir @ [sz]
           else if filename = ''..'' then cache_dir
           else cache_dir @ [sz, filename])"
    using localPath_cases by blast
  show "prefix cache_dir (path_join cache_dir [sz, filename])"
    unfolding eq by simp
qed

theorem C5_witness:
  "i_reply (tmdb_image [''srv'', ''images''] (\<lambda>p. True) Map.empty 0 ''w500'' ''../../etc/passwd'' 0 (Completed 1))
      = Text 400 ''Invalid parameters''
   \<and> i_ops (tmdb_image [''srv'', ''images''] (\<lambda>p. True) Map.empty 0 ''w500'' ''../../etc/passwd'' 0 (Completed 1)) = []
   \<and> path_join [''srv'', ''images''] [''w500'', ''abc.jpg''] = [''srv'', ''images'', ''w500'', ''abc.jpg'']
   \<and> path_join [''srv'', ''images''] [''w500'', ''..''] = [''srv'', ''images'']"
proof -
  have bad: "\<not> filename_ok ''../../etc/passwd''"
    by (simp add: filename_ok_def allowed_char_def)
  have good: "List.member allowSizes ''w500'' \<and> filename_ok ''abc.jpg''"
    by (simp add: allowSizes_def filename_ok_def allowed_char_def)
  have dots: "List.member allowSizes ''w500'' \<and> filename_ok ''..''"
    by (simp add: allowSizes_def filename_ok_def allowed_char_def)
  show ?thesis
    using bad good dots
      C5_image_parameters_checked [of "''w500''" "''../../etc/passwd''" "[''srv'', ''images'']"
        "\<lambda>p. True" Map.empty 0 0 "Completed 1"]
      C5_image_parameters_checked [of "''w500''" "''abc.jpg''" "[''srv'', ''images'']"]
      C5_image_parameters_checked [of "''w500''" "''..''" "[''srv'', ''images'']"]
    by simp
qed

lemma image_catch_reply:
  "i_reply (image_catch can fs ops n p) = Text 404 ''Image not found''
   \<or> i_reply (image_catch can fs ops n p) = NoReply"
  by (simp add: image_catch_def split: option.splits)

lemma image_catch_removed:
  "i_reply (image_catch can fs ops n p) = Text 404 ''Image not found'' \<Longrightarrow>
   i_fs (image_catch can fs ops n p) p = None"
  by (auto simp: image_catch_def unlinkSync_def split: option.splits if_splits)

lemma image_catch_unlinks:
  "fs p = Some e \<Longrightarrow>
   i_ops (image_catch can fs ops n p) = ops @ [ExistsSync p, UnlinkSync p]"
  by (auto simp: image_catch_def split: option.splits)

lemma image_catch_surfaces:
  "can p \<Longrightarrow> (\<And>e. fs p = Some e \<Longrightarrow> \<not> e_dir e) \<Longrightarrow>
   i_reply (image_catch can fs ops n p) = Text 404 ''Image not found''"
  by (auto simp: image_catch_def unlinkSync_def split: option.splits)

lemma image_download_catches:
  assumes "dl = FetchFailed \<or> dl = WriteFailed w"
  shows "\<exists>fs' ops'. image_download can fs ops n p now dl = image_catch can fs' ops' n p"
  using assms by (auto simp: image_download_def split: option.splits) blast+

lemma image_download_failed:
  assumes "dl = FetchFailed \<or> dl = WriteFailed w"
  shows "(i_reply (image_download can fs ops n p now dl) = Text 404 ''Image not found''
          \<or> i_reply (image_download can fs ops n p now dl) = NoReply)
       \<and> (i_reply (image_download can fs ops n p now dl) = Text 404 ''Image not found'' \<longrightarrow>
            i_fs (image_download can fs ops n p now dl) p = None)"
proof -
  obtain fs' ops' where "image_download can fs ops n p now dl = image_catch can fs' ops' n p"
    using image_download_catches [OF assms] by blast
  then show ?thesis
    using image_catch_reply [of can fs' ops' n p] image_catch_removed [of can fs' ops' n p]
    by simp
qed

lemma image_download_surfaces:
  assumes "dl = FetchFailed \<or> dl = WriteFailed w" and "can p" and "\<And>e. fs p = Some e \<Longrightarrow> \<not> e_dir e"
  shows "i_reply (image_download can fs ops n p now dl) = Text 404 ''Image not found''"
  using assms
  by (auto simp: image_download_def writeFile_def intro!: image_catch_surfaces
           split: option.splits if_splits)

lemma image_download_no_utimes:
  "UtimesSync q \<notin> set ops \<Longrightarrow> UtimesSync q \<notin> set (i_ops (image_download can fs ops n p now dl))"
  by (auto simp: image_download_def image_catch_def split: download.splits option.splits)

lemma image_download_sendFile:
  "i_reply (image_download can fs ops n p now dl) = SendFile q \<Longrightarrow>
   (\<exists>k. dl = Completed k) \<and> CreateWriteStream p \<in> set (i_ops (image_download can fs ops n p now dl))"
  by (auto simp: image_download_def image_catch_def split: download.splits option.splits)

lemma image_catch_noreply:
  "i_reply (image_catch can fs ops n p) = NoReply \<Longrightarrow>
   UnlinkSync p \<in> set (i_ops (image_catch can fs ops n p))"
  by (auto simp: image_catch_def split: option.splits)

lemma image_download_noreply:
  assumes "dl = FetchFailed \<or> dl = WriteFailed w"
    and "i_reply (image_download can fs ops n p now dl) = NoReply"
  shows "UnlinkSync p \<in> set (i_ops (image_download can fs ops n p now dl))"
proof -
  obtain fs' ops' where "image_download can fs ops n p now dl = image_catch can fs' ops' n p"
    using image_download_catches [OF assms(1)] by blast
  with assms(2) image_catch_noreply [of can fs' ops' n p] show ?thesis
    by simp
qed

lemma fold_mkdir_keeps:
  "p \<notin> set ps \<Longrightarrow> fold (\<lambda>q m. if m q = None then m(q \<mapsto> e) else m) ps fs p = fs p"
  by (induction ps arbitrary: fs) auto

lemma not_prefix_of_dirname: "p \<notin> set (tl (prefixes (butlast p)))"
proof (cases "p = []")
  case True
  then show ?thesis by simp
next
  case False
  have "q \<noteq> p" if "q \<in> set (prefixes (butlast p))" for q
  proof -
    from that have "prefix q (butlast p)" by simp
    then have "length q \<le> length (butlast p)" by (rule prefix_length_le)
    moreover have "length (butlast p) < length p"
      using False by (cases p rule: rev_cases) simp_all
    ultimately show ?thesis by auto
  qed
  moreover have "set (tl (prefixes (butlast p))) \<subseteq> set (prefixes (butlast p))"
    by (cases "prefixes (butlast p)") auto
  ultimately show ?thesis by blast
qed

lemma mkdir_keeps:
  "mkdirSync fs (path_dirname p) now = Some fs' \<Longrightarrow> fs' p = fs p"
  using fold_mkdir_keeps [OF not_prefix_of_dirname [of p]]
  by (auto simp: mkdirSync_def path_dirname_def Let_def split: if_splits)

lemma image_download_answers:
  assumes "dl = FetchFailed \<or> dl = WriteFailed w" and "can p" and "\<forall>e. fs p = Some e \<longrightarrow> \<not> e_dir e"
  shows "i_reply (image_download can fs ops n p now dl) = Text 404 ''Image not found''"
  using assms image_download_surfaces [of dl w can p fs ops n now] by blast

text \<open>
  Claim C6, as amended. On a miss (no file at the derived path, or a file of size
  zero), when the upstream call fails or the pipeline fails partway, the handler
  answers 404 or does not answer at all; whenever it answers, no file is left at the
  derived path; and it does answer, with the file gone, when the path may be unlinked
  and is not a directory and its directory exists or can be made. It does not answer
  only when \<open>mkdirSync\<close> raised (before any download) or after it called
  \<open>unlinkSync\<close>, which then raised and left the partial file. With a file of size
  zero at the path the hit path is never taken: the time stamps are not refreshed, and a
  file is sent only after a completed download has rewritten it.
\<close>

theorem C6_failed_download_leaves_no_file:
  assumes ok: "List.member allowSizes sz" "filename_ok filename"
    and p: "p = path_join cache_dir [sz, filename]"
    and r: "r = tmdb_image cache_dir can fs n sz filename now dl"
    and miss: "\<forall>e. fs p = Some e \<longrightarrow> e_size e = 0"
  shows "(dl = FetchFailed \<or> dl = WriteFailed w \<longrightarrow>
            (i_reply r = Text 404 ''Image not found'' \<or> i_reply r = NoReply)
          \<and> (i_reply r = Text 404 ''Image not found'' \<longrightarrow> i_fs r p = None)
          \<and> (can p \<and> (\<forall>e. fs p = Some e \<longrightarrow> \<not> e_dir e)
               \<and> (fs (path_dirname p) \<noteq> None \<or> mkdirSync fs (path_dirname p) now \<noteq> None) \<longrightarrow>
                i_reply r = Text 404 ''Image not found'' \<and> i_fs r p = None)
          \<and> (i_reply r = NoReply \<longrightarrow>
                (fs (path_dirname p) = None \<and> mkdirSync fs (path_dirname p) now = None)
                \<or> UnlinkSync p \<in> set (i_ops r)))
       \<and> UtimesSync p \<notin> set (i_ops r)
       \<and> (i_reply r = SendFile p \<longrightarrow>
            (\<exists>k. dl = Completed k) \<and> CreateWriteStream p \<in> set (i_ops r))"
proof -
  have nohit: "(case fs p of None \<Rightarrow> None | Some e \<Rightarrow> if e_size e > 0 then Some e else None) = None"
    using miss by (auto split: option.splits)
  define ops1 where "ops1 = (case fs p of None \<Rightarrow> [ExistsSync p] | Some e \<Rightarrow> [ExistsSync p, StatSync p])"
  have ops1: "UtimesSync p \<notin> set ops1"
    by (auto simp: ops1_def split: option.splits)
  have unfold: "r = (case fs (path_dirname p) of
       Some d \<Rightarrow> image_download can fs (ops1 @ [ExistsSync (path_dirname p)]) n p now dl
     | None \<Rightarrow>
         (case mkdirSync fs (path_dirname p) now of
            None \<Rightarrow> \<lparr> i_reply = NoReply, i_fs = fs,
                      i_ops = ops1 @ [ExistsSync (path_dirname p), MkdirSync (path_dirname p)],
                      i_count = n, i_sweep = False \<rparr>
          | Some fs' \<Rightarrow>
              image_download can fs' (ops1 @ [ExistsSync (path_dirname p), MkdirSync (path_dirname p)])
                n p now dl))"
    using ok nohit by (simp add: r tmdb_image_def p [symmetric] Let_def ops1_def cong: option.case_cong)
  have download: "(dl = FetchFailed \<or> dl = WriteFailed w \<longrightarrow>
            (i_reply d = Text 404 ''Image not found'' \<or> i_reply d = NoReply)
          \<and> (i_reply d = Text 404 ''Image not found'' \<longrightarrow> i_fs d p = None)
          \<and> (can p \<and> (\<forall>e. fs1 p = Some e \<longrightarrow> \<not> e_dir e) \<longrightarrow>
                i_reply d = Text 404 ''Image not found'' \<and> i_fs d p = None)
          \<and> (i_reply d = NoReply \<longrightarrow> UnlinkSync p \<in> set (i_ops d)))
       \<and> UtimesSync p \<notin> set (i_ops d)
       \<and> (i_reply d = SendFile p \<longrightarrow>
            (\<exists>k. dl = Completed k) \<and> CreateWriteStream p \<in> set (i_ops d))"
    if d: "d = image_download can fs1 ops n p now dl" and ops: "UtimesSync p \<notin> set ops" for d fs1 ops
    unfolding d
    using image_download_failed [of dl w can fs1 ops n p now]
      image_download_answers [of dl w can p fs1 ops n now]
      image_download_noreply [of dl w can fs1 ops n p now]
      image_download_no_utimes [of p ops can fs1 n p now dl]
      image_download_sendFile [of can fs1 ops n p now dl p] ops
    by argo
  show ?thesis
  proof (cases "fs (path_dirname p)")
    case (Some d)
    then have r': "r = image_download can fs (ops1 @ [ExistsSync (path_dirname p)]) n p now dl"
      using unfold by simp
    have "UtimesSync p \<notin> set (ops1 @ [ExistsSync (path_dirname p)])"
      using ops1 by simp
    from download [OF r' this] show ?thesis
      by blast
  next
    case None
    show ?thesis
    proof (cases "mkdirSync fs (path_dirname p) now")
      case n2: None
      then have r': "r = \<lparr> i_reply = NoReply, i_fs = fs,
                      i_ops = ops1 @ [ExistsSync (path_dirname p), MkdirSync (path_dirname p)],
                      i_count = n, i_sweep = False \<rparr>"
        using unfold None by simp
      show ?thesis unfolding r' using ops1 None n2 by simp
    next
      case (Some fs')
      then have r': "r = image_download can fs' (ops1 @ [ExistsSync (path_dirname p), MkdirSync (path_dirname p)]) n p now dl"
        using unfold None by simp
      have same: "fs' p = fs p"
        using Some by (rule mkdir_keeps)
      have "UtimesSync p \<notin> set (ops1 @ [ExistsSync (path_dirname p), MkdirSync (path_dirname p)])"
        using ops1 by simp
      from download [OF r' this] show ?thesis
        unfolding same by blast
    qed
  qed
qed

theorem C6_witness:
  "i_reply (tmdb_image [''srv'', ''images''] (\<lambda>p. True) Map.empty
       0 ''w500'' ''abc.jpg'' 7 (WriteFailed (Some 10)))
     = Text 404 ''Image not found''
   \<and> i_fs (tmdb_image [''srv'', ''images''] (\<lambda>p. True) Map.empty
       0 ''w500'' ''abc.jpg'' 7 (WriteFailed (Some 10))) [''srv'', ''images'', ''w500'', ''abc.jpg'']
     = None"
proof -
  have ok: "List.member allowSizes ''w500''" "filename_ok ''abc.jpg''"
    by (simp_all add: allowSizes_def filename_ok_def allowed_char_def)
  have p: "[''srv'', ''images'', ''w500'', ''abc.jpg''] = path_join [''srv'', ''images''] [''w500'', ''abc.jpg'']"
    by (simp add: path_join_def norm_step_def)
  have mk: "mkdirSync Map.empty (path_dirname [''srv'', ''images'', ''w500'', ''abc.jpg'']) 7 \<noteq> None"
    by (simp add: mkdirSync_def path_dirname_def Let_def)
  show ?thesis
    using C6_failed_download_leaves_no_file [where fs = Map.empty and dl = "WriteFailed (Some 10)"
        and w = "Some 10" and can = "\<lambda>p. True" and now = 7 and n = 0, OF ok p refl] mk
    by (simp add: p [symmetric])
qed

text \<open>
  The claim as stated fails when the handler's \<open>unlinkSync\<close> raises: the handler
  sends no reply, the partial file of ten bytes stays at the derived path, and the next
  request for the same image takes it for a hit and sends it.
\<close>

theorem C6_counterexample:
  "i_reply (tmdb_image [''srv'', ''images''] (\<lambda>p. False)
       (Map.empty([''srv'', ''images'', ''w500''] \<mapsto> \<lparr> e_dir = True, e_size = 4096, e_mtime = 0 \<rparr>))
       0 ''w500'' ''abc.jpg'' 7 (WriteFailed (Some 10)))
     = NoReply
   \<and> i_fs (tmdb_image [''srv'', ''images''] (\<lambda>p. False)
       (Map.empty([''srv'', ''images'', ''w500''] \<mapsto> \<lparr> e_dir = True, e_size = 4096, e_mtime = 0 \<rparr>))
       0 ''w500'' ''abc.jpg'' 7 (WriteFailed (Some 10))) [''srv'', ''images'', ''w500'', ''abc.jpg'']
     = Some \<lparr> e_dir = False, e_size = 10, e_mtime = 7 \<rparr>
   \<and> i_reply (tmdb_image [''srv'', ''images''] (\<lambda>p. False)
       (i_fs (tmdb_image [''srv'', ''images''] (\<lambda>p. False)
          (Map.empty([''srv'', ''images'', ''w500''] \<mapsto> \<lparr> e_dir = True, e_size = 4096, e_mtime = 0 \<rparr>))
          0 ''w500'' ''abc.jpg'' 7 (WriteFailed (Some 10))))
       0 ''w500'' ''abc.jpg'' 9 FetchFailed)
     = SendFile [''srv'', ''images'', ''w500'', ''abc.jpg'']"
proof -
  have first: "tmdb_image [''srv'', ''images''] (\<lambda>p. False)
       (Map.empty([''srv'', ''images'', ''w500''] \<mapsto> \<lparr> e_dir = True, e_size = 4096, e_mtime = 0 \<rparr>))
       0 ''w500'' ''abc.jpg'' 7 (WriteFailed (Some 10))
     = \<lparr> i_reply = NoReply,
         i_fs = (Map.empty([''srv'', ''images'', ''w500''] \<mapsto> \<lparr> e_dir = True, e_size = 4096, e_mtime = 0 \<rparr>))
                  ([''srv'', ''images'', ''w500'', ''abc.jpg''] \<mapsto> \<lparr> e_dir = False, e_size = 10, e_mtime = 7 \<rparr>),
         i_ops = [ExistsSync [''srv'', ''images'', ''w500'', ''abc.jpg''],
                  ExistsSync [''srv'', ''images'', ''w500''],
                  CreateWriteStream [''srv'', ''images'', ''w500'', ''abc.jpg''],
                  ExistsSync [''srv'', ''images'', ''w500'', ''abc.jpg''],
                  UnlinkSync [''srv'', ''images'', ''w500'', ''abc.jpg'']],
         i_count = 0, i_sweep = False \<rparr>"
    by (simp add: tmdb_image_def allowSizes_def filename_ok_def allowed_char_def path_join_def
          norm_step_def path_dirname_def image_download_def image_catch_def writeFile_def
          unlinkSync_def Let_def)
  show ?thesis
    unfolding first
    by (simp add: tmdb_image_def allowSizes_def filename_ok_def allowed_char_def path_join_def
          norm_step_def path_dirname_def Let_def)
qed

section \<open>Properties of the eviction sweep\<close>
















section \<open>Properties of the streaming search\<close>

lemma field_item_obj_list [simp]: "field (item_obj it) ''list'' = JUndefined"
  by (simp add: item_obj_def)

lemma memory_lookup_miss:
  "cm_type cm = ''memory'' \<Longrightarrow> lookup_branch cm keyword now s = Miss"
  by (simp add: lookup_branch_def CacheManager_get_def Let_def split: option.splits)

lemma disabled_lookup_miss:
  "cm_type cm \<noteq> ''memory'' \<Longrightarrow> cm_type cm \<noteq> ''json'' \<Longrightarrow> lookup_branch cm keyword now s = Miss"
  by (simp add: lookup_branch_def CacheManager_get_def Let_def)

lemma json_lookup_hit:
  assumes "cm_type cm = ''json''"
    and "searchCache cm (cacheKey (site_key s) keyword) = Some it"
    and "now < item_expire it"
    and "field (item_value it) ''list'' = JArr xs"
  shows "lookup_branch cm keyword now s = Hit (map (decorate s) xs)"
proof -
  have "truthy (item_value it)"
    using assms(4) by (cases "item_value it") auto
  then show ?thesis
    using assms by (simp add: lookup_branch_def CacheManager_get_def table_def Let_def)
qed

lemma lookup_not_reject:
  assumes "search_cache_ok cm"
  shows "lookup_branch cm keyword now s \<noteq> Reject"
proof (cases "cm_type cm = ''json''")
  case False
  then show ?thesis
    using memory_lookup_miss [of cm keyword now s] disabled_lookup_miss [of cm keyword now s]
    by (cases "cm_type cm = ''memory''") simp_all
next
  case True
  show ?thesis
  proof (cases "searchCache cm (cacheKey (site_key s) keyword)")
    case None
    with True show ?thesis
      by (simp add: lookup_branch_def CacheManager_get_def table_def Let_def)
  next
    case (Some it)
    with assms have "list_shaped (item_value it)"
      by (auto simp: search_cache_ok_def)
    with True Some show ?thesis
      by (auto simp: lookup_branch_def CacheManager_get_def table_def Let_def list_shaped_def
               split: jsval.splits)
  qed
qed


lemma data_events_concat: "data_events (concat xss) = concat (map data_events xss)"
  by (induction xss) (simp_all add: data_events_def)

lemma data_events_Done [simp]: "data_events [DoneEvent] = []"
  by (simp add: data_events_def)

lemma data_start:
  "data_events (start_branch cm keyword now (i, s)) =
     (case lookup_branch cm keyword now s of
        Hit items \<Rightarrow> if items \<noteq> [] then [(i, items)] else []
      | Miss \<Rightarrow> []
      | Reject \<Rightarrow> [])"
  by (simp add: start_branch_def data_events_def split: start.splits)

lemma data_complete:
  "data_events (fst (complete_branch keyword up (i, s) cm)) =
     (case snd (up i) of
        Failed \<Rightarrow> []
      | Response dl \<Rightarrow>
          (case map_list (stream_item s) dl of
             None \<Rightarrow> []
           | Some l \<Rightarrow> if l \<noteq> [] \<and> \<not> set_raises cm (fst (up i)) then [(i, l)] else []))"
  by (simp add: complete_branch_def data_events_def split: fetch_result.splits option.splits)

lemma set_raises_complete [simp]:
  "set_raises (snd (complete_branch keyword up b cm)) t = set_raises cm t"
  by (cases b) (simp add: complete_branch_def split: fetch_result.splits option.splits)

lemma complete_trace_indep:
  "\<forall>t. set_raises cm' t = set_raises cm t \<Longrightarrow>
   fst (complete_branch keyword up b cm) = fst (complete_branch keyword up b cm')"
  by (cases b) (simp add: complete_branch_def split: fetch_result.splits option.splits)

lemma settle_trace_from:
  "\<forall>t. set_raises cm0 t = set_raises cm t \<Longrightarrow>
   fst (settle keyword up bs cm) = concat (map (\<lambda>b. fst (complete_branch keyword up b cm0)) bs)"
proof (induction bs arbitrary: cm)
  case Nil
  then show ?case by simp
next
  case (Cons b bs)
  have "\<forall>t. set_raises cm0 t = set_raises (snd (complete_branch keyword up b cm)) t"
    using Cons.prems by simp
  from Cons.IH [OF this] show ?case
    using complete_trace_indep [OF Cons.prems, of keyword up b]
    by (simp add: split_beta Let_def)
qed

lemma settle_trace:
  "fst (settle keyword up bs cm) = concat (map (\<lambda>b. fst (complete_branch keyword up b cm)) bs)"
  by (rule settle_trace_from) simp

lemma stream_search_unfold:
  assumes "search_cache_ok cm"
  shows "stream_search cm sites keyword now up =
     (EventStream
        (start_all cm sites keyword now
         @ fst (settle keyword up (resume_order cm sites keyword now up) cm)
         @ [DoneEvent]),
      snd (settle keyword up (resume_order cm sites keyword now up) cm))"
proof -
  have "\<not> list_ex (\<lambda>s. lookup_branch cm keyword now s = Reject) sites"
    using lookup_not_reject [OF assms] by (simp add: list_ex_iff)
  then show ?thesis
    by (simp add: stream_search_def Let_def split_beta)
qed



lemma in_branches:
  "(i, s) \<in> set (enumerate 0 sites) \<longleftrightarrow> i < length sites \<and> s = sites ! i"
  by (auto simp: in_set_enumerate_eq)

lemma in_resume_order:
  "(i, s) \<in> set (resume_order cm sites keyword now up) \<longleftrightarrow>
     i < length sites \<and> s = sites ! i \<and> lookup_branch cm keyword now s = Miss"
  by (auto simp: resume_order_def in_branches)




lemma start_data_hit:
  "x \<in> set (data_events (start_branch cm keyword now b)) \<Longrightarrow>
   \<exists>items. lookup_branch cm keyword now (snd b) = Hit items"
  by (cases b) (auto simp: data_start split: start.splits dest: sym)






lemma data_start_all:
  "data_events (start_all cm sites keyword now)
     = concat (map (\<lambda>b. data_events (start_branch cm keyword now b)) (enumerate 0 sites))"
  by (simp add: start_all_def data_events_concat comp_def)

lemma data_settle:
  "data_events (fst (settle keyword up bs cm))
     = concat (map (\<lambda>b. data_events (fst (complete_branch keyword up b cm))) bs)"
  by (simp add: settle_trace data_events_concat comp_def)


lemma start_data_in:
  "(i, l) \<in> set (data_events (start_all cm sites keyword now)) \<longleftrightarrow>
     i < length sites \<and> l \<noteq> [] \<and> lookup_branch cm keyword now (sites ! i) = Hit l"
proof -
  have "(i, l) \<in> set (data_events (start_all cm sites keyword now)) \<longleftrightarrow>
        (\<exists>j s. (j, s) \<in> set (enumerate 0 sites) \<and> (i, l) \<in> set (data_events (start_branch cm keyword now (j, s))))"
    by (auto simp: data_start_all)
  also have "\<dots> \<longleftrightarrow> (\<exists>j. j < length sites \<and> (i, l) \<in> set (data_events (start_branch cm keyword now (j, sites ! j))))"
    by (simp add: in_branches)
  also have "\<dots> \<longleftrightarrow> i < length sites \<and> l \<noteq> [] \<and> lookup_branch cm keyword now (sites ! i) = Hit l"
    by (auto simp: data_start split: start.splits if_splits)
  finally show ?thesis .
qed

lemma resume_data_in:
  "(i, l) \<in> set (data_events (fst (settle keyword up (resume_order cm sites keyword now up) cm))) \<longleftrightarrow>
     i < length sites \<and> l \<noteq> [] \<and> lookup_branch cm keyword now (sites ! i) = Miss
     \<and> \<not> set_raises cm (fst (up i))
     \<and> (\<exists>dl. snd (up i) = Response dl \<and> map_list (stream_item (sites ! i)) dl = Some l)"
proof -
  have "(i, l) \<in> set (data_events (fst (settle keyword up (resume_order cm sites keyword now up) cm))) \<longleftrightarrow>
        (\<exists>j s. (j, s) \<in> set (resume_order cm sites keyword now up)
               \<and> (i, l) \<in> set (data_events (fst (complete_branch keyword up (j, s) cm))))"
    by (auto simp: data_settle)
  also have "\<dots> \<longleftrightarrow> (\<exists>j. j < length sites \<and> lookup_branch cm keyword now (sites ! j) = Miss
               \<and> (i, l) \<in> set (data_events (fst (complete_branch keyword up (j, sites ! j) cm))))"
    by (auto simp: in_resume_order)
  also have "\<dots> \<longleftrightarrow> i < length sites \<and> l \<noteq> [] \<and> lookup_branch cm keyword now (sites ! i) = Miss
     \<and> \<not> set_raises cm (fst (up i))
     \<and> (\<exists>dl. snd (up i) = Response dl \<and> map_list (stream_item (sites ! i)) dl = Some l)"
    by (auto simp: data_complete split: fetch_result.splits option.splits if_splits) metis
  finally show ?thesis .
qed








lemma set_search_ok:
  "search_cache_ok cm \<Longrightarrow> search_cache_ok (CacheManager_set cm ''search'' k (JObj [(''list'', JArr l)]) ttl t)"
  by (auto simp: search_cache_ok_def CacheManager_set_def CacheManager_saveDisk_def Let_def list_shaped_def)

lemma set_detail_ok:
  "search_cache_ok cm \<Longrightarrow> search_cache_ok (CacheManager_set cm ''detail'' k v ttl t)"
  by (auto simp: search_cache_ok_def CacheManager_set_def CacheManager_saveDisk_def Let_def)

lemma complete_branch_ok:
  "search_cache_ok cm \<Longrightarrow> search_cache_ok (snd (complete_branch keyword up b cm))"
  by (cases b) (simp add: complete_branch_def set_search_ok split: fetch_result.splits option.splits)

lemma settle_ok:
  "search_cache_ok cm \<Longrightarrow> search_cache_ok (snd (settle keyword up bs cm))"
proof (induction bs arbitrary: cm)
  case Nil
  then show ?case by simp
next
  case (Cons b bs)
  from Cons.IH [OF complete_branch_ok [OF Cons.prems, of keyword up b]]
  show ?case by (simp add: split_beta Let_def)
qed

lemma stream_search_ok:
  "search_cache_ok cm \<Longrightarrow> search_cache_ok (snd (stream_search cm sites keyword now up))"
  by (simp add: stream_search_unfold settle_ok)

lemma post_search_ok:
  "search_cache_ok cm \<Longrightarrow> search_cache_ok (h_cache (post_search cm sites keyword siteKey now up))"
  by (simp add: post_search_def Let_def set_search_ok split: option.splits fetch_result.splits)

lemma get_detail_ok:
  "search_cache_ok cm \<Longrightarrow> search_cache_ok (h_cache (get_detail cm sites ident siteKey now up))"
  by (simp add: get_detail_def Let_def set_detail_ok split: option.splits fetch_result.splits list.splits)

lemma post_detail_ok:
  "search_cache_ok cm \<Longrightarrow> search_cache_ok (h_cache (post_detail cm sites ident siteKey now up))"
  by (simp add: post_detail_def Let_def set_detail_ok split: option.splits fetch_result.splits list.splits)

lemma scenario_eval:
  "fst (stream_search (CacheManager_new ''json'' None None)
     [\<lparr> site_key = ''siteA'', site_name = ''A'', site_api = ''http://a/api'' \<rparr>,
      \<lparr> site_key = ''siteB'', site_name = ''B'', site_api = ''http://b/api'' \<rparr>]
     ''test'' 0
     (\<lambda>i. if i = 0 then (50, Response (Some [JObj [(''vod_id'', JNum 1), (''vod_name'', JStr ''X'')]]))
          else (8000, Failed)))
   = EventStream
      [Lookup 0 ''siteA_test'', Upstream 0, Lookup 1 ''siteB_test'', Upstream 1,
       DataEvent 0 [JObj [(''vod_id'', JNum 1), (''vod_name'', JStr ''X''),
                          (''vod_pic'', JUndefined), (''vod_remarks'', JUndefined),
                          (''vod_year'', JUndefined), (''type_name'', JUndefined),
                          (''vod_content'', JUndefined), (''vod_play_from'', JUndefined),
                          (''vod_play_url'', JUndefined),
                          (''site_key'', JStr ''siteA''), (''site_name'', JStr ''A'')]],
       Settled 0, Settled 1, DoneEvent]"
  by (simp add: stream_search_def start_all_def resume_order_def lookup_branch_def start_branch_def
        complete_branch_def CacheManager_get_def CacheManager_new_def table_def cacheKey_def
        map_list_def stream_item_def enumerate_eq_zip upt_rec Let_def
        set_raises_def saveDisk_raises_def)



lemma data_events_iff: "(i, l) \<in> set (data_events tr) \<longleftrightarrow> DataEvent i l \<in> set tr"
proof (induction tr)
  case Nil
  then show ?case by (simp add: data_events_def)
next
  case (Cons e tr)
  then show ?case by (cases e) (auto simp: data_events_def)
qed

lemma cacheKey_inj [simp]: "cacheKey k keyword = cacheKey k' keyword \<longleftrightarrow> k = k'"
  by (simp add: cacheKey_def)

lemma searchCache_table: "searchCache cm = table cm ''search''"
  by (simp add: table_def)

lemma cm_type_complete [simp]: "cm_type (snd (complete_branch keyword up b cm)) = cm_type cm"
  by (cases b) (simp add: complete_branch_def split: fetch_result.splits option.splits)

lemma cm_type_settle [simp]: "cm_type (snd (settle keyword up bs cm)) = cm_type cm"
  by (induction bs arbitrary: cm) (simp_all add: split_beta Let_def)

lemma complete_other:
  "site_key s \<noteq> k \<Longrightarrow>
   searchCache (snd (complete_branch keyword up (i, s) cm)) (cacheKey k keyword)
     = searchCache cm (cacheKey k keyword)"
  by (simp add: complete_branch_def searchCache_table table_set_other
           split: fetch_result.splits option.splits)

lemma settle_other:
  "k \<notin> set (map (\<lambda>b. site_key (snd b)) bs) \<Longrightarrow>
   searchCache (snd (settle keyword up bs cm)) (cacheKey k keyword) = searchCache cm (cacheKey k keyword)"
proof (induction bs arbitrary: cm)
  case Nil
  then show ?case by simp
next
  case (Cons b bs)
  obtain i s where b: "b = (i, s)" by (cases b)
  from Cons.prems b have "site_key s \<noteq> k" and "k \<notin> set (map (\<lambda>b. site_key (snd b)) bs)"
    by auto
  then show ?case
    using Cons.IH [of "snd (complete_branch keyword up b cm)"] complete_other [of s k keyword up i cm]
    by (simp add: split_beta Let_def b)
qed

lemma complete_writes:
  assumes "cm_type cm = ''memory'' \<or> cm_type cm = ''json''"
    and "up i = (t, Response dl)" and "map_list (stream_item s) dl = Some l"
  shows "searchCache (snd (complete_branch keyword up (i, s) cm)) (cacheKey (site_key s) keyword)
     = Some \<lparr> item_value = JObj [(''list'', JArr l)], item_expire = t + 600 * 1000 \<rparr>"
  using assms table_set_same [OF assms(1), of "''search''"]
  by (simp add: complete_branch_def searchCache_table)

lemma settle_writes:
  assumes "cm_type cm = ''memory'' \<or> cm_type cm = ''json''"
    and "distinct (map (\<lambda>b. site_key (snd b)) bs)" and "(i, s) \<in> set bs"
    and "up i = (t, Response dl)" and "map_list (stream_item s) dl = Some l"
  shows "searchCache (snd (settle keyword up bs cm)) (cacheKey (site_key s) keyword)
     = Some \<lparr> item_value = JObj [(''list'', JArr l)], item_expire = t + 600 * 1000 \<rparr>"
  using assms(1-3)
proof (induction bs arbitrary: cm)
  case Nil
  then show ?case by simp
next
  case (Cons b bs)
  let ?cm1 = "snd (complete_branch keyword up b cm)"
  have ty: "cm_type ?cm1 = ''memory'' \<or> cm_type ?cm1 = ''json''"
    using Cons.prems(1) by simp
  have step: "snd (settle keyword up (b # bs) cm) = snd (settle keyword up bs ?cm1)"
    by (simp add: split_beta Let_def)
  show ?case
  proof (cases "b = (i, s)")
    case True
    with Cons.prems(2) have "site_key s \<notin> set (map (\<lambda>b. site_key (snd b)) bs)"
      by simp
    from settle_other [OF this, of keyword up ?cm1]
    show ?thesis
      using complete_writes [where up = up and i = i and keyword = keyword, OF Cons.prems(1) assms(4,5)] True step
      by simp
  next
    case False
    with Cons.prems have "(i, s) \<in> set bs" and "distinct (map (\<lambda>b. site_key (snd b)) bs)"
      by auto
    from Cons.IH [OF ty this(2) this(1)] step show ?thesis by simp
  qed
qed

lemma resume_keys_distinct:
  assumes "distinct (map site_key sites)"
  shows "distinct (map (\<lambda>b. site_key (snd b)) (resume_order cm sites keyword now up))"
proof -
  have "map (\<lambda>b. site_key (snd b)) (enumerate n sites) = map site_key sites" for n
    by (induction sites arbitrary: n) simp_all
  then have "map (\<lambda>b. site_key (snd b)) (enumerate 0 sites) = map site_key sites" .
  with assms have "distinct (map (\<lambda>b. site_key (snd b)) (enumerate 0 sites))"
    by simp
  then have "distinct (map (\<lambda>b. site_key (snd b))
      (filter (\<lambda>(i, s). lookup_branch cm keyword now s = Miss) (enumerate 0 sites)))"
    by (rule distinct_map_filter)
  then show ?thesis
    by (simp add: resume_order_def distinct_map)
qed






section \<open>Cache hits of the streaming search\<close>

lemma stream_search_no_reject:
  assumes "\<forall>s \<in> set sites. lookup_branch cm keyword now s \<noteq> Reject"
  shows "stream_search cm sites keyword now up =
     (EventStream
        (start_all cm sites keyword now
         @ fst (settle keyword up (resume_order cm sites keyword now up) cm)
         @ [DoneEvent]),
      snd (settle keyword up (resume_order cm sites keyword now up) cm))"
proof -
  have "\<not> list_ex (\<lambda>s. lookup_branch cm keyword now s = Reject) sites"
    using assms by (simp add: list_ex_iff)
  then show ?thesis
    by (simp add: stream_search_def Let_def split_beta)
qed

lemma upstream_start:
  "Upstream i \<in> set (start_branch cm keyword now (j, s)) \<longleftrightarrow>
     i = j \<and> lookup_branch cm keyword now s = Miss"
  by (auto simp: start_branch_def split: start.splits)

lemma upstream_start_all:
  "Upstream i \<in> set (start_all cm sites keyword now) \<longleftrightarrow>
     i < length sites \<and> lookup_branch cm keyword now (sites ! i) = Miss"
proof -
  have "Upstream i \<in> set (start_all cm sites keyword now) \<longleftrightarrow>
      (\<exists>j s. (j, s) \<in> set (enumerate 0 sites) \<and> Upstream i \<in> set (start_branch cm keyword now (j, s)))"
    by (auto simp: start_all_def)
  also have "\<dots> \<longleftrightarrow> i < length sites \<and> lookup_branch cm keyword now (sites ! i) = Miss"
    by (auto simp: in_branches upstream_start)
  finally show ?thesis .
qed

lemma upstream_complete: "Upstream i \<notin> set (fst (complete_branch keyword up b cm))"
  by (cases b) (simp add: complete_branch_def split: fetch_result.splits option.splits)

lemma upstream_settle: "Upstream i \<notin> set (fst (settle keyword up bs cm))"
  using upstream_complete by (auto simp: settle_trace)

lemma upstream_run:
  "Upstream i \<in> set (start_all cm sites keyword now
       @ fst (settle keyword up (resume_order cm sites keyword now up) cm) @ [DoneEvent]) \<longleftrightarrow>
     i < length sites \<and> lookup_branch cm keyword now (sites ! i) = Miss"
  by (simp add: upstream_start_all upstream_settle)

lemma data_run:
  "DataEvent i l \<in> set (start_all cm sites keyword now
       @ fst (settle keyword up (resume_order cm sites keyword now up) cm) @ [DoneEvent]) \<longleftrightarrow>
     i < length sites \<and> l \<noteq> [] \<and>
     (lookup_branch cm keyword now (sites ! i) = Hit l
      \<or> lookup_branch cm keyword now (sites ! i) = Miss \<and> \<not> set_raises cm (fst (up i))
        \<and> (\<exists>dl. snd (up i) = Response dl \<and> map_list (stream_item (sites ! i)) dl = Some l))"
proof -
  have "DataEvent i l \<in> set (start_all cm sites keyword now
       @ fst (settle keyword up (resume_order cm sites keyword now up) cm) @ [DoneEvent]) \<longleftrightarrow>
     (i, l) \<in> set (data_events (start_all cm sites keyword now))
     \<or> (i, l) \<in> set (data_events (fst (settle keyword up (resume_order cm sites keyword now up) cm)))"
    by (simp flip: data_events_iff)
  then show ?thesis
    unfolding start_data_in resume_data_in by blast
qed

text \<open>
  On the json type the claim C3 holds: a live entry with a non-empty list under the
  source's key keeps the run from calling the source, and the run writes the decorated
  list as the one data frame of that source.
\<close>

lemma json_stream_hit:
  assumes ok: "search_cache_ok cm" and ty: "cm_type cm = ''json''"
    and i: "i < length sites"
    and entry: "searchCache cm (cacheKey (site_key (sites ! i)) keyword) = Some it"
    and live: "now < item_expire it"
    and val: "field (item_value it) ''list'' = JArr xs" and ne: "xs \<noteq> []"
  shows "\<exists>tr cm'. stream_search cm sites keyword now up = (EventStream tr, cm')
     \<and> Upstream i \<notin> set tr
     \<and> DataEvent i (map (decorate (sites ! i)) xs) \<in> set tr
     \<and> (\<forall>l. DataEvent i l \<in> set tr \<longrightarrow> l = map (decorate (sites ! i)) xs)"
proof -
  have hit: "lookup_branch cm keyword now (sites ! i) = Hit (map (decorate (sites ! i)) xs)"
    using json_lookup_hit [OF ty entry live val] .
  show ?thesis
    unfolding stream_search_unfold [OF ok]
    using hit i ne by (simp add: upstream_run data_run del: set_append)
qed

lemma json_hit_eval:
  "fst (stream_search
     (CacheManager_set (CacheManager_new ''json'' None None) ''search'' ''siteA_batman''
        (JObj [(''list'', JArr [JObj [(''vod_id'', JNum 1)]])]) 600 0)
     [\<lparr> site_key = ''siteA'', site_name = ''A'', site_api = ''http://a/api'' \<rparr>]
     ''batman'' 1 (\<lambda>i. (50, Failed)))
   = EventStream
      [Lookup 0 ''siteA_batman'',
       DataEvent 0 [JObj [(''vod_id'', JNum 1), (''site_key'', JStr ''siteA''), (''site_name'', JStr ''A'')]],
       Settled 0, DoneEvent]"
  by (simp add: stream_search_def start_all_def resume_order_def lookup_branch_def start_branch_def
        CacheManager_get_def CacheManager_set_def CacheManager_saveDisk_def CacheManager_new_def
        table_def cacheKey_def decorate_def Let_def)

text \<open>
  Claim C3. With an unexpired entry that holds a non-empty list under the source's key,
  the streaming search is not to call the source. On the memory type it calls every
  source, whatever the cache holds: \<open>get\<close> returns the entry \<open>{ value, expire }\<close>,
  whose property \<open>list\<close> is \<open>undefined\<close>, so the cache-hit test
  \<open>cached && cached.list\<close> fails.
\<close>

theorem C3_memory_stream_calls_upstream:
  assumes "cm_type cm = ''memory''" and "i < length sites"
  shows "\<exists>tr cm'. stream_search cm sites keyword now up = (EventStream tr, cm')
     \<and> Upstream i \<in> set tr"
proof -
  have miss: "lookup_branch cm keyword now s = Miss" for s
    using assms(1) by (rule memory_lookup_miss)
  then have "\<forall>s \<in> set sites. lookup_branch cm keyword now s \<noteq> Reject"
    by simp
  from stream_search_no_reject [OF this] show ?thesis
    using miss assms(2) by (simp add: upstream_run del: set_append)
qed

theorem C3_witness:
  "searchCache (CacheManager_set (CacheManager_new ''memory'' None None) ''search'' ''siteA_batman''
      (JObj [(''list'', JArr [JObj [(''vod_id'', JNum 1)]])]) 600 0) ''siteA_batman''
     = Some \<lparr> item_value = JObj [(''list'', JArr [JObj [(''vod_id'', JNum 1)]])], item_expire = 600000 \<rparr>
   \<and> (\<exists>tr cm'.
        stream_search
          (CacheManager_set (CacheManager_new ''memory'' None None) ''search'' ''siteA_batman''
             (JObj [(''list'', JArr [JObj [(''vod_id'', JNum 1)]])]) 600 0)
          [\<lparr> site_key = ''siteA'', site_name = ''A'', site_api = ''http://a/api'' \<rparr>]
          ''batman'' 1 (\<lambda>i. (50, Failed))
          = (EventStream tr, cm')
        \<and> Upstream 0 \<in> set tr)"
proof -
  let ?cm = "CacheManager_set (CacheManager_new ''memory'' None None) ''search'' ''siteA_batman''
      (JObj [(''list'', JArr [JObj [(''vod_id'', JNum 1)]])]) 600 0"
  have ty: "cm_type ?cm = ''memory''"
    by (simp add: CacheManager_new_def)
  have stored: "searchCache ?cm ''siteA_batman''
     = Some \<lparr> item_value = JObj [(''list'', JArr [JObj [(''vod_id'', JNum 1)]])], item_expire = 600000 \<rparr>"
    by (simp add: CacheManager_set_def CacheManager_new_def Let_def)
  from C3_memory_stream_calls_upstream [OF ty, of 0
      "[\<lparr> site_key = ''siteA'', site_name = ''A'', site_api = ''http://a/api'' \<rparr>]" "''batman''" 1
      "\<lambda>i. (50, Failed)"]
  show ?thesis
    using stored by simp
qed


section \<open>The two search endpoints share their cache entries\<close>

lemma post_search_writes:
  assumes "find (\<lambda>s. site_key s = k) sites = Some s"
    and "\<not> truthy (CacheManager_get cm ''search'' (cacheKey k keyword) t0)"
    and "up0 = (t, Response dl)" and "map_list post_item dl = Some l"
  shows "post_search cm sites keyword k t0 up0 =
     \<lparr> h_status = (if set_raises cm t then 500 else 200),
       h_body = (if set_raises cm t then error_body ''Search failed'' else JObj [(''list'', JArr l)]),
       h_cache = CacheManager_set cm ''search'' (cacheKey k keyword) (JObj [(''list'', JArr l)]) 600 t,
       h_fetched = True \<rparr>"
  using assms by (simp add: post_search_def Let_def)

lemma post_search_hit:
  assumes "find (\<lambda>s. site_key s = k) sites = Some s"
    and "truthy (CacheManager_get cm ''search'' (cacheKey k keyword) now)"
  shows "post_search cm sites keyword k now up =
     \<lparr> h_status = 200, h_body = CacheManager_get cm ''search'' (cacheKey k keyword) now,
       h_cache = cm, h_fetched = False \<rparr>"
  using assms by (simp add: post_search_def Let_def)

lemma find_distinct_key:
  "distinct (map f xs) \<Longrightarrow> i < length xs \<Longrightarrow> find (\<lambda>x. f x = f (xs ! i)) xs = Some (xs ! i)"
proof (induction xs arbitrary: i)
  case Nil
  then show ?case by simp
next
  case (Cons x xs)
  then show ?case
    by (cases i) auto
qed

lemma stream_writes_entry:
  assumes ok: "search_cache_ok cm" and keys: "distinct (map site_key sites)"
    and ty: "cm_type cm = ''memory'' \<or> cm_type cm = ''json''"
    and i: "i < length sites"
    and miss: "lookup_branch cm keyword now (sites ! i) = Miss"
    and up: "up i = (t, Response dl)"
    and l: "map_list (stream_item (sites ! i)) dl = Some l"
  shows "searchCache (snd (stream_search cm sites keyword now up)) (cacheKey (site_key (sites ! i)) keyword)
     = Some \<lparr> item_value = JObj [(''list'', JArr l)], item_expire = t + 600 * 1000 \<rparr>"
proof -
  have inord: "(i, sites ! i) \<in> set (resume_order cm sites keyword now up)"
    using i miss by (simp add: in_resume_order)
  have dist: "distinct (map (\<lambda>b. site_key (snd b)) (resume_order cm sites keyword now up))"
    using keys by (rule resume_keys_distinct)
  show ?thesis
    unfolding stream_search_unfold [OF ok] snd_conv
    using settle_writes [where up = up and i = i and keyword = keyword, OF ty dist inord up l] .
qed

text \<open>
  On the json type the claim C10 holds in both directions, for as long as the entry
  lives: what POST /api/search wrote is a hit of the streaming search (no upstream call;
  the stored list, decorated, is the source's only data frame), and what the streaming
  search wrote is a hit of POST /api/search, returned as stored.
\<close>

lemma json_post_then_stream:
  assumes ok: "search_cache_ok cm" and ty: "cm_type cm = ''json''"
    and i: "i < length sites"
    and found: "find (\<lambda>s. site_key s = site_key (sites ! i)) sites = Some s"
    and miss: "\<not> truthy (CacheManager_get cm ''search'' (cacheKey (site_key (sites ! i)) keyword) t0)"
    and up0: "up0 = (t, Response dl)" and l: "map_list post_item dl = Some l"
    and live: "now < t + 600 * 1000"
  shows "\<exists>tr cm'.
       stream_search (h_cache (post_search cm sites keyword (site_key (sites ! i)) t0 up0)) sites keyword now up
         = (EventStream tr, cm')
     \<and> Upstream i \<notin> set tr
     \<and> (\<forall>l'. DataEvent i l' \<in> set tr \<longleftrightarrow> l' = map (decorate (sites ! i)) l \<and> l \<noteq> [])"
proof -
  let ?k = "cacheKey (site_key (sites ! i)) keyword"
  let ?cm1 = "CacheManager_set cm ''search'' ?k (JObj [(''list'', JArr l)]) 600 t"
  have cm1: "h_cache (post_search cm sites keyword (site_key (sites ! i)) t0 up0) = ?cm1"
    using post_search_writes [OF found miss up0 l] by simp
  have ok1: "search_cache_ok ?cm1"
    using ok by (rule set_search_ok)
  have ty1: "cm_type ?cm1 = ''json''"
    using ty by simp
  have entry: "searchCache ?cm1 ?k = Some \<lparr> item_value = JObj [(''list'', JArr l)], item_expire = t + 600 * 1000 \<rparr>"
    using table_set_same [of cm "''search''" ?k] ty by (simp add: searchCache_table)
  have hit: "lookup_branch ?cm1 keyword now (sites ! i) = Hit (map (decorate (sites ! i)) l)"
    using json_lookup_hit [OF ty1 entry] live by simp
  show ?thesis
    unfolding cm1 stream_search_unfold [OF ok1]
    using hit i by (auto simp: upstream_run data_run simp del: set_append)
qed

lemma json_stream_then_post:
  assumes ok: "search_cache_ok cm" and keys: "distinct (map site_key sites)"
    and ty: "cm_type cm = ''json''"
    and i: "i < length sites"
    and miss: "lookup_branch cm keyword now (sites ! i) = Miss"
    and up: "up i = (t, Response dl)"
    and l: "map_list (stream_item (sites ! i)) dl = Some l"
    and live: "now1 < t + 600 * 1000"
  shows "post_search (snd (stream_search cm sites keyword now up)) sites keyword (site_key (sites ! i)) now1 up1
     = \<lparr> h_status = 200, h_body = JObj [(''list'', JArr l)],
         h_cache = snd (stream_search cm sites keyword now up), h_fetched = False \<rparr>"
proof -
  let ?cm' = "snd (stream_search cm sites keyword now up)"
  let ?k = "cacheKey (site_key (sites ! i)) keyword"
  have entry: "searchCache ?cm' ?k = Some \<lparr> item_value = JObj [(''list'', JArr l)], item_expire = t + 600 * 1000 \<rparr>"
    using stream_writes_entry [where up = up and i = i, OF ok keys _ i miss up l] ty by simp
  have ty': "cm_type ?cm' = ''json''"
    using ty by (simp add: stream_search_unfold [OF ok])
  have got: "CacheManager_get ?cm' ''search'' ?k now1 = JObj [(''list'', JArr l)]"
    using entry ty' live by (simp add: CacheManager_get_def table_def)
  have found: "find (\<lambda>s. site_key s = site_key (sites ! i)) sites = Some (sites ! i)"
    using keys i by (rule find_distinct_key)
  show ?thesis
    using post_search_hit [OF found, of ?cm' keyword now1 up1] got by simp
qed

text \<open>
  Claim C10. Both search endpoints use the key \<open>sourceKey_keyword\<close> in the category
  \<open>search\<close>, so an entry written by one is to be a hit of the other. On the memory
  type the entry that POST /api/search writes is there, under that key and unexpired,
  and the streaming search still calls the source: \<open>get\<close> hands it the entry
  \<open>{ value, expire }\<close>, which has no \<open>list\<close>.
\<close>

theorem C10_memory_post_entry_missed_by_stream:
  assumes ty: "cm_type cm = ''memory''"
    and i: "i < length sites"
    and found: "find (\<lambda>s. site_key s = site_key (sites ! i)) sites = Some s"
    and absent: "searchCache cm (cacheKey (site_key (sites ! i)) keyword) = None"
    and up0: "up0 = (t, Response dl)" and l: "map_list post_item dl = Some l"
  shows "searchCache (h_cache (post_search cm sites keyword (site_key (sites ! i)) t0 up0))
           (cacheKey (site_key (sites ! i)) keyword)
         = Some \<lparr> item_value = JObj [(''list'', JArr l)], item_expire = t + 600 * 1000 \<rparr>
     \<and> (\<exists>tr cm'.
           stream_search (h_cache (post_search cm sites keyword (site_key (sites ! i)) t0 up0)) sites keyword now up
             = (EventStream tr, cm')
         \<and> Upstream i \<in> set tr)"
proof -
  let ?k = "cacheKey (site_key (sites ! i)) keyword"
  let ?cm1 = "CacheManager_set cm ''search'' ?k (JObj [(''list'', JArr l)]) 600 t"
  have miss: "\<not> truthy (CacheManager_get cm ''search'' ?k t0)"
    using ty absent by (simp add: CacheManager_get_def table_def)
  have cm1: "h_cache (post_search cm sites keyword (site_key (sites ! i)) t0 up0) = ?cm1"
    using post_search_writes [OF found miss up0 l] by simp
  have entry: "searchCache ?cm1 ?k = Some \<lparr> item_value = JObj [(''list'', JArr l)], item_expire = t + 600 * 1000 \<rparr>"
    using table_set_same [of cm "''search''" ?k] ty by (simp add: searchCache_table)
  have ty1: "cm_type ?cm1 = ''memory''"
    using ty by simp
  have look: "lookup_branch ?cm1 keyword now s' = Miss" for s'
    using ty1 by (rule memory_lookup_miss)
  then have "\<forall>s' \<in> set sites. lookup_branch ?cm1 keyword now s' \<noteq> Reject"
    by simp
  from stream_search_no_reject [OF this]
  have "\<exists>tr cm'. stream_search ?cm1 sites keyword now up = (EventStream tr, cm') \<and> Upstream i \<in> set tr"
    using look i by (simp add: upstream_run del: set_append)
  with entry show ?thesis
    unfolding cm1 by simp
qed

theorem C10_witness:
  "\<exists>tr cm'.
     stream_search
       (h_cache (post_search (CacheManager_new ''memory'' None None)
          [\<lparr> site_key = ''siteA'', site_name = ''A'', site_api = ''http://a/api'' \<rparr>]
          ''batman'' ''siteA'' 0 (40, Response (Some [JObj [(''vod_id'', JNum 1)]]))))
       [\<lparr> site_key = ''siteA'', site_name = ''A'', site_api = ''http://a/api'' \<rparr>]
       ''batman'' 100 (\<lambda>i. (150, Failed))
       = (EventStream tr, cm')
     \<and> Upstream 0 \<in> set tr"
proof -
  let ?a = "\<lparr> site_key = ''siteA'', site_name = ''A'', site_api = ''http://a/api'' \<rparr>"
  let ?cm = "CacheManager_new ''memory'' None None"
  have ty: "cm_type ?cm = ''memory''"
    by (simp add: CacheManager_new_def)
  have i: "(0 :: nat) < length [?a]"
    by simp
  have found: "find (\<lambda>s. site_key s = site_key ([?a] ! 0)) [?a] = Some ?a"
    by simp
  have absent: "searchCache ?cm (cacheKey (site_key ([?a] ! 0)) ''batman'') = None"
    by (simp add: CacheManager_new_def)
  have l: "map_list post_item (Some [JObj [(''vod_id'', JNum 1)]])
      = Some [post_item (JObj [(''vod_id'', JNum 1)])]"
    by (simp add: map_list_def)
  from C10_memory_post_entry_missed_by_stream
    [where t = 40 and ?t0.0 = 0 and now = 100 and up = "\<lambda>i. (150, Failed)", OF ty i found absent refl l]
  show ?thesis
    by simp
qed


section \<open>Properties of the detail handlers\<close>

lemma detail_hit:
  assumes "find (\<lambda>s. site_key s = k) sites = Some s"
    and "truthy (CacheManager_get cm ''detail'' (detailKey k ident) now)"
  shows "get_detail cm sites ident k now up =
           \<lparr> h_status = 200,
             h_body = JObj [(''list'', JArr [CacheManager_get cm ''detail'' (detailKey k ident) now])],
             h_cache = cm, h_fetched = False \<rparr>"
    and "post_detail cm sites ident k now up =
           \<lparr> h_status = 200, h_body = CacheManager_get cm ''detail'' (detailKey k ident) now,
             h_cache = cm, h_fetched = False \<rparr>"
  using assms by (simp_all add: get_detail_def post_detail_def Let_def)

text \<open>
  On the json type the three parts of claim C8 hold. A live entry with a truthy record
  is returned without an upstream call.
\<close>

lemma json_detail_hit:
  assumes "cm_type cm = ''json''"
    and "find (\<lambda>s. site_key s = k) sites = Some s"
    and "detailCache cm (detailKey k ident) = Some it"
    and "now < item_expire it" and "truthy (item_value it)"
  shows "get_detail cm sites ident k now up =
           \<lparr> h_status = 200, h_body = JObj [(''list'', JArr [item_value it])],
             h_cache = cm, h_fetched = False \<rparr>"
    and "post_detail cm sites ident k now up =
           \<lparr> h_status = 200, h_body = item_value it, h_cache = cm, h_fetched = False \<rparr>"
proof -
  have "CacheManager_get cm ''detail'' (detailKey k ident) now = item_value it"
    using assms by (simp add: CacheManager_get_def table_def)
  with detail_hit [OF assms(2), of cm ident now up] assms(5)
  show "get_detail cm sites ident k now up =
           \<lparr> h_status = 200, h_body = JObj [(''list'', JArr [item_value it])],
             h_cache = cm, h_fetched = False \<rparr>"
    and "post_detail cm sites ident k now up =
           \<lparr> h_status = 200, h_body = item_value it, h_cache = cm, h_fetched = False \<rparr>"
    by simp_all
qed

text \<open>
  On a miss with a non-empty upstream list the first element is written with a TTL of
  3600 seconds (on every cache type; the types that store nothing ignore the write) and
  returned; when writing the documents raises, the reply is the 500 of the \<open>catch\<close>
  block, with the entry in the table.
\<close>

lemma detail_miss_found:
  assumes "find (\<lambda>s. site_key s = k) sites = Some s"
    and "\<not> truthy (CacheManager_get cm ''detail'' (detailKey k ident) now)"
    and "up = (t, Response (Some (d # rest)))"
  shows "get_detail cm sites ident k now up =
           \<lparr> h_status = (if set_raises cm t then 500 else 200),
             h_body = (if set_raises cm t
                       then JObj [(''error'', JStr ''Detail fetch failed''), (''list'', JArr [])]
                       else JObj [(''list'', JArr [d])]),
             h_cache = CacheManager_set cm ''detail'' (detailKey k ident) d 3600 t,
             h_fetched = True \<rparr>"
    and "post_detail cm sites ident k now up =
           \<lparr> h_status = (if set_raises cm t then 500 else 200),
             h_body = (if set_raises cm t then error_body ''Detail fetch failed'' else d),
             h_cache = CacheManager_set cm ''detail'' (detailKey k ident) d 3600 t,
             h_fetched = True \<rparr>"
  using assms by (simp_all add: get_detail_def post_detail_def Let_def)

lemma json_detail_cached_for_an_hour:
  assumes "cm_type cm = ''json''"
  shows "CacheManager_get (CacheManager_set cm ''detail'' (detailKey k ident) d 3600 t) ''detail''
           (detailKey k ident) t'
         = (if t' < t + 3600 * 1000 then d else JNull)"
  using assms by (simp add: json_set_get)

text \<open>
  On a miss with an empty upstream list (or none) the reply is 404 and the cache is
  left as it was, so the next lookup of an absent entry calls upstream again.
\<close>

lemma detail_miss_empty:
  assumes "find (\<lambda>s. site_key s = k) sites = Some s"
    and "\<not> truthy (CacheManager_get cm ''detail'' (detailKey k ident) now)"
    and "snd up = Response None \<or> snd up = Response (Some [])"
  shows "get_detail cm sites ident k now up =
           \<lparr> h_status = 404, h_body = JObj [(''error'', JStr ''Not found''), (''list'', JArr [])],
             h_cache = cm, h_fetched = True \<rparr>"
    and "post_detail cm sites ident k now up =
           \<lparr> h_status = 404, h_body = error_body ''Not found'', h_cache = cm, h_fetched = True \<rparr>"
  using assms by (auto simp: get_detail_def post_detail_def Let_def)

lemma absent_not_truthy:
  "table cm category key = None \<Longrightarrow> \<not> truthy (CacheManager_get cm category key now)"
  by (simp add: CacheManager_get_def)

lemma detail_not_found_refetches:
  assumes "find (\<lambda>s. site_key s = k) sites = Some s"
    and "detailCache cm (detailKey k ident) = None"
    and "snd up = Response None \<or> snd up = Response (Some [])"
  shows "h_fetched (get_detail (h_cache (get_detail cm sites ident k now up)) sites ident k now' up')"
    and "h_fetched (post_detail (h_cache (post_detail cm sites ident k now up)) sites ident k now' up')"
proof -
  have miss: "\<not> truthy (CacheManager_get cm ''detail'' (detailKey k ident) t)" for t
    using assms(2) by (intro absent_not_truthy) (simp add: table_def)
  have "h_cache (get_detail cm sites ident k now up) = cm"
    and "h_cache (post_detail cm sites ident k now up) = cm"
    using detail_miss_empty [OF assms(1) miss assms(3)] by simp_all
  then show "h_fetched (get_detail (h_cache (get_detail cm sites ident k now up)) sites ident k now' up')"
    and "h_fetched (post_detail (h_cache (post_detail cm sites ident k now up)) sites ident k now' up')"
    using assms(1) miss [of now']
    by (simp_all add: get_detail_def post_detail_def Let_def split: fetch_result.splits option.splits list.splits)
qed

text \<open>
  Claim C8. On a cache hit the detail handlers are to return the cached record. On the
  memory type they return, without an upstream call, the entry \<open>{ value, expire }\<close>
  that wraps the record, and they do so at every instant, also after the entry has
  expired.
\<close>

theorem C8_memory_detail_hit_returns_entry:
  assumes "cm_type cm = ''memory''"
    and "find (\<lambda>s. site_key s = k) sites = Some s"
    and "detailCache cm (detailKey k ident) = Some it"
  shows "get_detail cm sites ident k now up =
           \<lparr> h_status = 200,
             h_body = JObj [(''list'', JArr [JObj [(''value'', item_value it), (''expire'', JNum (item_expire it))]])],
             h_cache = cm, h_fetched = False \<rparr>
       \<and> post_detail cm sites ident k now up =
           \<lparr> h_status = 200,
             h_body = JObj [(''value'', item_value it), (''expire'', JNum (item_expire it))],
             h_cache = cm, h_fetched = False \<rparr>"
proof -
  have got: "CacheManager_get cm ''detail'' (detailKey k ident) now = item_obj it"
    using assms(1,3) by (simp add: CacheManager_get_def table_def)
  then have "truthy (CacheManager_get cm ''detail'' (detailKey k ident) now)"
    by (simp add: item_obj_def)
  from detail_hit [OF assms(2) this, of up] got show ?thesis
    by (simp add: item_obj_def)
qed

theorem C8_witness:
  "post_detail
     (CacheManager_set (CacheManager_new ''memory'' None None) ''detail'' ''siteA_detail_7''
        (JObj [(''vod_id'', JNum 7)]) 3600 0)
     [\<lparr> site_key = ''siteA'', site_name = ''A'', site_api = ''http://a/api'' \<rparr>]
     ''7'' ''siteA'' 3600000 (3600050, Failed)
   = \<lparr> h_status = 200,
       h_body = JObj [(''value'', JObj [(''vod_id'', JNum 7)]), (''expire'', JNum 3600000)],
       h_cache = CacheManager_set (CacheManager_new ''memory'' None None) ''detail'' ''siteA_detail_7''
          (JObj [(''vod_id'', JNum 7)]) 3600 0,
       h_fetched = False \<rparr>"
proof -
  let ?cm = "CacheManager_set (CacheManager_new ''memory'' None None) ''detail'' ''siteA_detail_7''
        (JObj [(''vod_id'', JNum 7)]) 3600 0"
  let ?a = "\<lparr> site_key = ''siteA'', site_name = ''A'', site_api = ''http://a/api'' \<rparr>"
  have ty: "cm_type ?cm = ''memory''"
    by (simp add: CacheManager_new_def)
  have found: "find (\<lambda>s. site_key s = ''siteA'') [?a] = Some ?a"
    by simp
  have entry: "detailCache ?cm (detailKey ''siteA'' ''7'')
      = Some \<lparr> item_value = JObj [(''vod_id'', JNum 7)], item_expire = 3600000 \<rparr>"
    by (simp add: CacheManager_set_def CacheManager_new_def detailKey_def Let_def)
  from C8_memory_detail_hit_returns_entry [OF ty found entry, of 3600000 "(3600050, Failed)"]
  show ?thesis
    by simp
qed

end
